theory Spec2Isabelle
  imports Main
begin

section \<open>Data model\<close>

text \<open>
  The program works on JSON documents held in Python dictionaries. The model gives
  every dictionary the shape that the program reads and writes. A field that the code
  reads with \<^verbatim>\<open>d.get(k, e)\<close>, where \<^verbatim>\<open>e\<close> is the empty value of its type, is
  a plain field: the code cannot tell an absent key from an empty value. A field whose
  absence is visible (a different default, a membership test, a key that is written
  only sometimes) is an \<open>option\<close>. Strings are byte lists holding UTF-8. Values of
  another JSON type than the field has here (a URL given as one string, a description
  given as an object, a number that is not an integer) are outside the model.
\<close>

datatype json =
    JNull
  | JBool bool
  | JInt int
  | JStr string
  | JArr "json list"
  | JObj "(string \<times> json) list"

record param =
  p_name :: string
  p_type :: "string option"
  p_required :: bool
  p_location :: string
  p_description :: "string option"
  p_default :: "json option"

record response =
  r_status :: "int option"
  r_description :: string
  r_example :: json

record endpoint =
  e_method :: "string option"
  e_path :: string
  e_controller :: string
  e_action :: string
  e_description :: string
  e_parameters :: "param list"
  e_responses :: "response list"

record header =
  h_key :: string
  h_value :: string
  h_description :: "string option"

record query =
  q_key :: string
  q_value :: json
  q_disabled :: bool
  q_description :: string

record url =
  u_raw :: "string option"
  u_path :: "string list option"
  u_query :: "query list option"

record body =
  b_mode :: "string option"
  b_raw :: "string option"
  b_urlencoded :: "query list option"
  b_options :: "json option"
  b_other :: "(string \<times> json) list"

record request =
  rq_method :: "string option"
  rq_header :: "header list"
  rq_url :: url
  rq_description :: "string option"
  rq_body :: "body option"

record item =
  i_name :: "string option"
  i_request :: "request option"
  i_other :: "(string \<times> json) list"

text \<open>
  Functions of the Python library and the clock, which the program calls and which are
  not part of it: the path component of \<^verbatim>\<open>urllib.parse.urlparse\<close>, \<^verbatim>\<open>str\<close> of a
  URL dictionary, \<^verbatim>\<open>json.dumps(v, indent=2)\<close> of a value and of the descriptor data,
  \<^verbatim>\<open>json.loads\<close>, and the formatted current time. What \<^verbatim>\<open>json.loads\<close> gives is
  a decoding error (with its text), a dictionary (with its descriptors), or a JSON
  value that is not a dictionary.
  Every function of the model that reaches one of them takes the library as its
  first argument, and every theorem holds for any library.
\<close>

datatype loaded = DecodeError string | LoadedDict "endpoint list" | LoadedOther json

record pylib =
  urlparse_path :: "string \<Rightarrow> string"
  str_of_url :: "url \<Rightarrow> string"
  json_dumps :: "json \<Rightarrow> string"
  json_dumps_endpoints :: "endpoint list \<Rightarrow> string"
  json_loads :: "string \<Rightarrow> loaded"
  now_stamp :: string

section \<open>Python string operations\<close>

definition startswith :: "string \<Rightarrow> string \<Rightarrow> bool" where
  "startswith s p \<longleftrightarrow> take (length p) s = p"

definition endswith :: "string \<Rightarrow> string \<Rightarrow> bool" where
  "endswith s e \<longleftrightarrow> length e \<le> length s \<and> drop (length s - length e) s = e"

text \<open>\<^verbatim>\<open>s.find(sub)\<close>: the index of the first occurrence, if any.\<close>

fun str_find :: "string \<Rightarrow> string \<Rightarrow> nat option" where
  "str_find [] sub = (if sub = [] then Some 0 else None)"
| "str_find (c # cs) sub =
     (if startswith (c # cs) sub then Some 0 else map_option Suc (str_find cs sub))"

text \<open>\<^verbatim>\<open>sub in s\<close>\<close>

definition contains :: "string \<Rightarrow> string \<Rightarrow> bool" where
  "contains s sub \<longleftrightarrow> str_find s sub \<noteq> None"

lemma startswith_length: "startswith s p \<Longrightarrow> length p \<le> length s"
proof -
  assume "startswith s p"
  then have "length (take (length p) s) = length p"
    by (simp add: startswith_def)
  then show ?thesis by simp
qed

lemma str_find_bound: "str_find s sep = Some i \<Longrightarrow> i + length sep \<le> length s"
proof (induction s arbitrary: i)
  case Nil
  then show ?case by (simp split: if_splits)
next
  case (Cons c cs)
  show ?case
  proof (cases "startswith (c # cs) sep")
    case True
    then have "length sep \<le> length (c # cs)"
      by (rule startswith_length)
    with True Cons.prems show ?thesis by simp
  next
    case False
    with Cons.prems obtain j where "str_find cs sep = Some j" "i = Suc j" by auto
    with Cons.IH show ?thesis by auto
  qed
qed

text \<open>
  \<^verbatim>\<open>s.split(sep)\<close> for a separator that is not empty (every separator of the program
  is a literal; Python raises on an empty one, which the model answers with \<open>[s]\<close>).
\<close>

function str_split :: "string \<Rightarrow> string \<Rightarrow> string list" where
  "str_split s sep =
     (if sep = [] then [s]
      else case str_find s sep of
             None \<Rightarrow> [s]
           | Some i \<Rightarrow> take i s # str_split (drop (i + length sep) s) sep)"
  by pat_completeness auto
termination
proof (relation "measure (\<lambda>(s, sep). length s)")
  show "wf (measure (\<lambda>(s, sep). length s))" by simp
next
  fix s sep :: string and i :: nat
  assume "sep \<noteq> []" and "str_find s sep = Some i"
  then have "i + length sep \<le> length s" and "0 < length sep"
    by (simp_all add: str_find_bound)
  then have "length s - (i + length sep) < length s"
    by arith
  then show "((drop (i + length sep) s, sep), (s, sep)) \<in> measure (\<lambda>(s, sep). length s)"
    by simp
qed

declare str_split.simps [simp del]

text \<open>\<^verbatim>\<open>s.split(sep, 1)\<close>: at most one cut.\<close>

definition str_split1 :: "string \<Rightarrow> string \<Rightarrow> string list" where
  "str_split1 s sep =
     (case str_find s sep of
        None \<Rightarrow> [s]
      | Some i \<Rightarrow> [take i s, drop (i + length sep) s])"

text \<open>\<^verbatim>\<open>sep.join(parts)\<close>\<close>

fun join :: "string \<Rightarrow> string list \<Rightarrow> string" where
  "join sep [] = []"
| "join sep [x] = x"
| "join sep (x # y # ys) = x @ sep @ join sep (y # ys)"

text \<open>
  \<^verbatim>\<open>s.strip()\<close> removes the characters for which \<^verbatim>\<open>str.isspace\<close> holds from both
  ends. These are the UTF-8 encodings of those code points.
\<close>

definition whitespace :: "string list" where
  "whitespace =
     [[CHR 0x09], [CHR 0x0A], [CHR 0x0B], [CHR 0x0C], [CHR 0x0D],
      [CHR 0x1C], [CHR 0x1D], [CHR 0x1E], [CHR 0x1F], [CHR 0x20],
      [CHR 0xC2, CHR 0x85], [CHR 0xC2, CHR 0xA0], [CHR 0xE1, CHR 0x9A, CHR 0x80],
      [CHR 0xE2, CHR 0x80, CHR 0x80], [CHR 0xE2, CHR 0x80, CHR 0x81],
      [CHR 0xE2, CHR 0x80, CHR 0x82], [CHR 0xE2, CHR 0x80, CHR 0x83],
      [CHR 0xE2, CHR 0x80, CHR 0x84], [CHR 0xE2, CHR 0x80, CHR 0x85],
      [CHR 0xE2, CHR 0x80, CHR 0x86], [CHR 0xE2, CHR 0x80, CHR 0x87],
      [CHR 0xE2, CHR 0x80, CHR 0x88], [CHR 0xE2, CHR 0x80, CHR 0x89],
      [CHR 0xE2, CHR 0x80, CHR 0x8A], [CHR 0xE2, CHR 0x80, CHR 0xA8],
      [CHR 0xE2, CHR 0x80, CHR 0xA9], [CHR 0xE2, CHR 0x80, CHR 0xAF],
      [CHR 0xE2, CHR 0x81, CHR 0x9F], [CHR 0xE3, CHR 0x80, CHR 0x80]]"

function strip_prefixes :: "string list \<Rightarrow> string \<Rightarrow> string" where
  "strip_prefixes ws s =
     (case find (\<lambda>w. w \<noteq> [] \<and> startswith s w) ws of
        None \<Rightarrow> s
      | Some w \<Rightarrow> strip_prefixes ws (drop (length w) s))"
  by pat_completeness auto
termination
proof (relation "measure (\<lambda>(ws, s). length s)")
  show "wf (measure (\<lambda>(ws, s). length s))" by simp
next
  fix ws :: "string list" and s w :: string
  assume "find (\<lambda>w. w \<noteq> [] \<and> startswith s w) ws = Some w"
  then have "w \<noteq> []" and "startswith s w"
    by (auto simp: find_Some_iff)
  then have "0 < length w" and "length w \<le> length s"
    by (simp_all add: startswith_length)
  then have "length s - length w < length s"
    by arith
  then show "((ws, drop (length w) s), (ws, s)) \<in> measure (\<lambda>(ws, s). length s)"
    by simp
qed

declare strip_prefixes.simps [simp del]

definition lstrip :: "string \<Rightarrow> string" where
  "lstrip s = strip_prefixes whitespace s"

definition rstrip :: "string \<Rightarrow> string" where
  "rstrip s = rev (strip_prefixes (map rev whitespace) (rev s))"

definition strip :: "string \<Rightarrow> string" where
  "strip s = rstrip (lstrip s)"

section \<open>Path normalizer\<close>

definition format_extensions :: "string list" where
  "format_extensions = [''.json'', ''.xml'', ''.html'', ''.csv'', ''.pdf'', ''.txt'']"

text \<open>The loop of \<^verbatim>\<open>remove_format_extension\<close>: the first matching suffix is cut and
  the function returns.\<close>

fun strip_first_ext :: "string list \<Rightarrow> string \<Rightarrow> string" where
  "strip_first_ext [] path = path"
| "strip_first_ext (ext # exts) path =
     (if endswith path ext then take (length path - length ext) path
      else strip_first_ext exts path)"

definition remove_format_extension :: "string \<Rightarrow> string" where
  "remove_format_extension path = strip_first_ext format_extensions path"

definition has_format_extension :: "string \<Rightarrow> bool" where
  "has_format_extension path \<longleftrightarrow> list_ex (endswith path) format_extensions"

definition first_part :: "string list \<Rightarrow> string" where
  "first_part parts = (case parts of [] \<Rightarrow> [] | x # _ \<Rightarrow> x)"

definition extract_clean_path_from_string :: "pylib \<Rightarrow> string \<Rightarrow> string" where
  "extract_clean_path_from_string L url_string =
     remove_format_extension
       (if startswith url_string ''http'' then urlparse_path L url_string
        else if contains url_string ''?'' then first_part (str_split url_string ''?'')
        else url_string)"

text \<open>
  A library for evaluating the model at concrete inputs that reach no library call:
  no path starts with \<^verbatim>\<open>http\<close>, every stored URL has its segment list, and no JSON
  value is rendered.
\<close>

definition idle_lib :: pylib where
  "idle_lib = \<lparr> urlparse_path = (\<lambda>s. s), str_of_url = (\<lambda>u. ''{}''),
                json_dumps = (\<lambda>v. ''null''), json_dumps_endpoints = (\<lambda>eps. ''{}''),
                json_loads = (\<lambda>s. LoadedDict []), now_stamp = ''2025-01-01 00:00:00'' \<rparr>"

section \<open>Collection item codec\<close>

text \<open>A Python dictionary keeps insertion order; assigning to a key that is present
  replaces its value in place.\<close>

fun dict_set :: "'k \<Rightarrow> 'v \<Rightarrow> ('k \<times> 'v) list \<Rightarrow> ('k \<times> 'v) list" where
  "dict_set k v [] = [(k, v)]"
| "dict_set k v ((k', v') # kvs) =
     (if k' = k then (k, v) # kvs else (k', v') # dict_set k v kvs)"

fun str_of_nat :: "nat \<Rightarrow> string" where
  "str_of_nat n =
     (if n < 10 then [''0123456789'' ! n]
      else str_of_nat (n div 10) @ [''0123456789'' ! (n mod 10)])"

declare str_of_nat.simps [simp del]

definition str_of_int :: "int \<Rightarrow> string" where
  "str_of_int i = (if i < 0 then ''-'' @ str_of_nat (nat (- i)) else str_of_nat (nat i))"

text \<open>Python truth value of a JSON value.\<close>

fun py_truthy :: "json \<Rightarrow> bool" where
  "py_truthy JNull = False"
| "py_truthy (JBool b) = b"
| "py_truthy (JInt i) = (i \<noteq> 0)"
| "py_truthy (JStr s) = (s \<noteq> [])"
| "py_truthy (JArr xs) = (xs \<noteq> [])"
| "py_truthy (JObj kvs) = (kvs \<noteq> [])"

text \<open>\<^verbatim>\<open>len(s)\<close> counts code points: the bytes that do not continue a UTF-8 sequence.\<close>

definition py_len :: "string \<Rightarrow> nat" where
  "py_len s = length (filter (\<lambda>c. \<not> (128 \<le> (of_char c :: nat) \<and> (of_char c :: nat) < 192)) s)"

definition method_of :: "endpoint \<Rightarrow> string" where
  "method_of ep = (case e_method ep of None \<Rightarrow> ''GET'' | Some m \<Rightarrow> m)"

definition param_description :: "param \<Rightarrow> string" where
  "param_description p = (case p_description p of None \<Rightarrow> [] | Some d \<Rightarrow> d)"

definition param_type :: "param \<Rightarrow> string" where
  "param_type p = (case p_type p of None \<Rightarrow> ''string'' | Some t \<Rightarrow> t)"

definition params_at :: "string \<Rightarrow> param list \<Rightarrow> param list" where
  "params_at loc ps = filter (\<lambda>p. p_location p = loc) ps"

definition request_start_marker :: string where
  "request_start_marker = ''<!-- AUTO-GENERATED-REQUEST START -->''"

definition request_end_marker :: string where
  "request_end_marker = ''<!-- AUTO-GENERATED-REQUEST END -->''"

definition collection_start_marker :: string where
  "collection_start_marker = ''<!-- AUTO-GENERATED START -->''"

definition collection_end_marker :: string where
  "collection_end_marker = ''<!-- AUTO-GENERATED END -->''"

definition required_word :: "param \<Rightarrow> string" where
  "required_word p = (if p_required p then ''Required'' else ''Optional'')"

definition doc_typed_required_line :: "param \<Rightarrow> string" where
  "doc_typed_required_line p =
     ''- **'' @ p_name p @ ''** ('' @ param_type p @ '', '' @ required_word p @ ''): ''
       @ param_description p @ ''\<newline>''"

definition doc_typed_line :: "param \<Rightarrow> string" where
  "doc_typed_line p =
     ''- **'' @ p_name p @ ''** ('' @ param_type p @ ''): '' @ param_description p @ ''\<newline>''"

definition doc_header_line :: "param \<Rightarrow> string" where
  "doc_header_line p = ''- **'' @ p_name p @ ''**: '' @ param_description p @ ''\<newline>''"

definition doc_response :: "pylib \<Rightarrow> response \<Rightarrow> string" where
  "doc_response L r =
     ''### '' @ str_of_int (case r_status r of None \<Rightarrow> 200 | Some n \<Rightarrow> n) @ '' - ''
       @ r_description r @ ''\<newline>\<newline>''
       @ (if py_truthy (r_example r)
          then ''```json\<newline>'' @ json_dumps L (r_example r) @ ''\<newline>```\<newline>\<newline>''
          else [])"

definition doc_parameters :: "param list \<Rightarrow> string" where
  "doc_parameters parameters =
     (let query_params = params_at ''query'' parameters;
          path_params = params_at ''path'' parameters;
          header_params = params_at ''header'' parameters;
          body_params = params_at ''body'' parameters;
          form_params = params_at ''form'' parameters
      in (if query_params \<noteq> []
          then ''## Query Parameters\<newline>\<newline>''
                 @ concat (map doc_typed_required_line query_params) @ ''\<newline>''
          else [])
       @ (if path_params \<noteq> []
          then ''## Path Parameters\<newline>\<newline>''
                 @ concat (map doc_typed_line path_params) @ ''\<newline>''
          else [])
       @ (if header_params \<noteq> []
          then ''## Headers\<newline>\<newline>''
                 @ concat (map doc_header_line header_params) @ ''\<newline>''
          else [])
       @ (if body_params \<noteq> [] \<or> form_params \<noteq> []
          then ''## Request Body\<newline>\<newline>''
                 @ ''**Content-Type:** `''
                 @ (if body_params \<noteq> [] then ''application/json''
                    else ''application/x-www-form-urlencoded'')
                 @ ''`\<newline>\<newline>''
                 @ concat (map doc_typed_required_line
                     (if body_params \<noteq> [] then body_params else form_params))
                 @ ''\<newline>''
          else []))"

definition generate_request_documentation :: "pylib \<Rightarrow> endpoint \<Rightarrow> string" where
  "generate_request_documentation L ep =
     request_start_marker @ ''\<newline>''
     @ ''# '' @ method_of ep @ '' '' @ extract_clean_path_from_string L (e_path ep)
     @ ''\<newline>\<newline>''
     @ (if e_description ep \<noteq> [] then e_description ep @ ''\<newline>\<newline>'' else [])
     @ (if e_controller ep \<noteq> [] \<and> e_action ep \<noteq> []
        then ''**Controller:** `'' @ e_controller ep @ ''#'' @ e_action ep @ ''`\<newline>\<newline>''
        else [])
     @ (if e_parameters ep \<noteq> [] then doc_parameters (e_parameters ep) else [])
     @ (if e_responses ep \<noteq> []
        then ''## Responses\<newline>\<newline>'' @ concat (map (doc_response L) (e_responses ep))
        else [])
     @ request_end_marker"

definition default_or :: "param \<Rightarrow> json \<Rightarrow> json" where
  "default_or p d = (case p_default p of None \<Rightarrow> d | Some v \<Rightarrow> v)"

definition query_entry :: "param \<Rightarrow> query" where
  "query_entry p =
     \<lparr> q_key = p_name p,
       q_value = default_or p (JStr []),
       q_disabled = False,
       q_description = param_description p \<rparr>"

definition body_default :: "param \<Rightarrow> json" where
  "body_default p =
     (let t = param_type p in
      if t = ''string'' then default_or p (JStr [])
      else if t = ''integer'' then default_or p (JInt 0)
      else if t = ''boolean'' then default_or p (JBool False)
      else if t = ''array'' then default_or p (JArr [])
      else if t = ''object'' then default_or p (JObj [])
      else default_or p (JStr []))"

definition body_object :: "param list \<Rightarrow> (string \<times> json) list" where
  "body_object body_params = foldl (\<lambda>obj p. dict_set (p_name p) (body_default p) obj) [] body_params"

definition convert_headers :: "param list \<Rightarrow> header list" where
  "convert_headers parameters =
     map (\<lambda>p. \<lparr> h_key = p_name p, h_value = [], h_description = Some (param_description p) \<rparr>)
         (params_at ''header'' parameters)
     @ (if params_at ''body'' parameters \<noteq> [] \<or> params_at ''form'' parameters \<noteq> []
        then [if params_at ''form'' parameters \<noteq> []
              then \<lparr> h_key = ''Content-Type'', h_value = ''application/x-www-form-urlencoded'',
                     h_description = None \<rparr>
              else \<lparr> h_key = ''Content-Type'', h_value = ''application/json'',
                     h_description = None \<rparr>]
        else [])"

definition convert_url :: "string \<Rightarrow> param list \<Rightarrow> url" where
  "convert_url clean_path parameters =
     \<lparr> u_raw = Some clean_path,
       u_path = Some (filter (\<lambda>p. p \<noteq> []) (str_split clean_path ''/'')),
       u_query = (if params_at ''query'' parameters \<noteq> []
                  then Some (map query_entry (params_at ''query'' parameters))
                  else None) \<rparr>"

definition convert_body :: "pylib \<Rightarrow> param list \<Rightarrow> body option" where
  "convert_body L parameters =
     (let body_params = params_at ''body'' parameters;
          form_params = params_at ''form'' parameters
      in if body_params \<noteq> [] \<or> form_params \<noteq> []
         then (if form_params \<noteq> []
               then Some \<lparr> b_mode = Some ''urlencoded'', b_raw = None,
                           b_urlencoded = Some (map query_entry form_params),
                           b_options = None, b_other = [] \<rparr>
               else Some \<lparr> b_mode = Some ''raw'',
                           b_raw = Some (json_dumps L (JObj (body_object body_params))),
                           b_urlencoded = None,
                           b_options = Some (JObj [(''raw'', JObj [(''language'', JStr ''json'')])]),
                           b_other = [] \<rparr>)
         else None)"

definition convert_endpoint_to_postman_item :: "pylib \<Rightarrow> endpoint \<Rightarrow> bool \<Rightarrow> item" where
  "convert_endpoint_to_postman_item L ep include_documentation =
     (let method = method_of ep;
          clean_path = extract_clean_path_from_string L (e_path ep)
      in \<lparr> i_name = Some (method @ '' '' @ clean_path),
           i_request = Some
             \<lparr> rq_method = Some method,
               rq_header = convert_headers (e_parameters ep),
               rq_url = convert_url clean_path (e_parameters ep),
               rq_description =
                 (if include_documentation then Some (generate_request_documentation L ep)
                  else if e_description ep \<noteq> [] then Some (e_description ep)
                  else None),
               rq_body = convert_body L (e_parameters ep) \<rparr>,
           i_other = [] \<rparr>)"

definition extract_clean_path_from_postman_url :: "pylib \<Rightarrow> url \<Rightarrow> string" where
  "extract_clean_path_from_postman_url L url_obj =
     (case u_path url_obj of
        Some segs \<Rightarrow> remove_format_extension (''/'' @ join ''/'' segs)
      | None \<Rightarrow>
          (case u_raw url_obj of
             Some raw \<Rightarrow> extract_clean_path_from_string L raw
           | None \<Rightarrow> extract_clean_path_from_string L (str_of_url L url_obj)))"

section \<open>Content merge engine\<close>

text \<open>The fingerprints of generated text that carries no markers.\<close>

definition legacy_request_text :: "string \<Rightarrow> bool" where
  "legacy_request_text existing \<longleftrightarrow>
     startswith existing ''# GET '' \<or> startswith existing ''# POST ''
     \<or> startswith existing ''# PUT '' \<or> startswith existing ''# DELETE ''
     \<or> contains existing ''## Query Parameters''
     \<or> contains existing ''## Request Body''
     \<or> contains existing ''## Responses''
     \<or> contains existing ''**Controller:**''"

definition legacy_collection_text :: "string \<Rightarrow> bool" where
  "legacy_collection_text existing \<longleftrightarrow>
     startswith existing ''# API Collection Documentation''
     \<or> contains existing ''This collection contains''
     \<or> contains existing ''Auto-generated on''"

definition merge_request_descriptions :: "string \<Rightarrow> string \<Rightarrow> string" where
  "merge_request_descriptions existing new =
     (if existing = [] then new
      else if new = [] then existing
      else if existing = new then existing
      else if contains existing request_start_marker \<and> contains existing request_end_marker
      then
        (let parts = str_split existing request_start_marker;
             manual_before = (if strip (first_part parts) \<noteq> [] then strip (first_part parts) else []);
             manual_after =
               (if contains existing request_end_marker
                then (let auto_and_after = str_split1 existing request_end_marker
                      in if 1 < length auto_and_after \<and> strip (auto_and_after ! 1) \<noteq> []
                         then strip (auto_and_after ! 1) else [])
                else [])
         in (if manual_before \<noteq> [] then manual_before @ ''\<newline>\<newline>'' else [])
            @ new
            @ (if manual_after \<noteq> [] then ''\<newline>\<newline>'' @ manual_after else []))
      else if legacy_request_text existing then new
      else existing @ ''\<newline>\<newline>---\<newline>\<newline>'' @ new)"

definition merge_descriptions :: "string \<Rightarrow> string \<Rightarrow> string" where
  "merge_descriptions existing new =
     (if existing = [] then new
      else if new = [] then existing
      else if existing = new then existing
      else if contains existing collection_start_marker \<and> contains existing collection_end_marker
      then
        (let parts = str_split existing collection_start_marker;
             manual_before = (if strip (first_part parts) \<noteq> [] then strip (first_part parts) else []);
             manual_after =
               (if contains existing collection_end_marker
                then (let auto_and_after = str_split1 existing collection_end_marker
                      in if 1 < length auto_and_after \<and> strip (auto_and_after ! 1) \<noteq> []
                         then strip (auto_and_after ! 1) else [])
                else [])
         in (if manual_before \<noteq> [] then manual_before @ ''\<newline>\<newline>'' else [])
            @ new
            @ (if manual_after \<noteq> [] then ''\<newline>\<newline>'' @ manual_after else []))
      else if legacy_collection_text existing then new
      else existing @ ''\<newline>\<newline>---\<newline>\<newline>'' @ new)"

text \<open>The text before the first occurrence of a marker, the text after it, and the
  layout of the rebuilt description: the words in which the merge is specified.\<close>

definition text_before :: "string \<Rightarrow> string \<Rightarrow> string" where
  "text_before s marker = (case str_find s marker of None \<Rightarrow> s | Some i \<Rightarrow> take i s)"

definition text_after :: "string \<Rightarrow> string \<Rightarrow> string" where
  "text_after s marker =
     (case str_find s marker of None \<Rightarrow> [] | Some i \<Rightarrow> drop (i + length marker) s)"

definition rebuilt :: "string \<Rightarrow> string \<Rightarrow> string \<Rightarrow> string" where
  "rebuilt before new after =
     (if before \<noteq> [] then before @ ''\<newline>\<newline>'' else [])
     @ new
     @ (if after \<noteq> [] then ''\<newline>\<newline>'' @ after else [])"

datatype py_error = KeyError string

text \<open>\<^verbatim>\<open>item.get("request", {}).get("description", "")\<close>\<close>

definition item_description :: "item \<Rightarrow> string" where
  "item_description it =
     (case i_request it of
        None \<Rightarrow> []
      | Some rq \<Rightarrow> (case rq_description rq of None \<Rightarrow> [] | Some d \<Rightarrow> d))"

text \<open>
  The merged item is a shallow copy of the fresh item: the assignment to
  \<^verbatim>\<open>merged["request"]["description"]\<close> raises \<^verbatim>\<open>KeyError\<close> when the fresh item has
  no request, and otherwise writes into the request that the fresh item shares. The
  model returns the merged item; the existing item is only read.
\<close>

definition merge_postman_items_with_preservation :: "item \<Rightarrow> item \<Rightarrow> py_error + item" where
  "merge_postman_items_with_preservation existing new =
     (let existing_desc = item_description existing;
          new_desc = item_description new
      in if existing_desc \<noteq> [] \<or> new_desc \<noteq> []
         then (case i_request new of
                 None \<Rightarrow> Inl (KeyError ''request'')
               | Some rq \<Rightarrow>
                   Inr (new\<lparr> i_request :=
                     Some (rq\<lparr> rq_description :=
                       Some (merge_request_descriptions existing_desc new_desc) \<rparr>) \<rparr>))
         else Inr new)"

section \<open>Change detector\<close>

definition headers_different :: "header list \<Rightarrow> header list \<Rightarrow> bool" where
  "headers_different existing new \<longleftrightarrow>
     (if length existing \<noteq> length new then True
      else set (map h_key existing) \<noteq> set (map h_key new))"

definition url_query :: "url \<Rightarrow> query list" where
  "url_query u = (case u_query u of None \<Rightarrow> [] | Some qs \<Rightarrow> qs)"

definition url_different :: "url \<Rightarrow> url \<Rightarrow> bool" where
  "url_different existing new \<longleftrightarrow>
     (if length (url_query existing) \<noteq> length (url_query new) then True
      else set (map q_key (url_query existing)) \<noteq> set (map q_key (url_query new)))"

text \<open>\<^verbatim>\<open>not body\<close> holds for a missing body and for an empty dictionary.\<close>

definition body_falsy :: "body option \<Rightarrow> bool" where
  "body_falsy b \<longleftrightarrow>
     (case b of
        None \<Rightarrow> True
      | Some d \<Rightarrow> b_mode d = None \<and> b_raw d = None \<and> b_urlencoded d = None
                  \<and> b_options d = None \<and> b_other d = [])"

definition body_mode :: "body option \<Rightarrow> string" where
  "body_mode b = (case b of None \<Rightarrow> [] | Some d \<Rightarrow> (case b_mode d of None \<Rightarrow> [] | Some m \<Rightarrow> m))"

definition body_different :: "body option \<Rightarrow> body option \<Rightarrow> bool" where
  "body_different existing new \<longleftrightarrow>
     (if body_falsy existing \<and> body_falsy new then False
      else if body_falsy existing \<or> body_falsy new then True
      else body_mode existing \<noteq> body_mode new)"

record changes =
  has_changes :: bool
  ch_headers :: "(nat \<times> nat) option"
  ch_url :: bool
  ch_body :: bool
  ch_description :: "(nat \<times> nat) option"

definition empty_url :: url where
  "empty_url = \<lparr> u_raw = None, u_path = None, u_query = None \<rparr>"

definition empty_request :: request where
  "empty_request = \<lparr> rq_method = None, rq_header = [], rq_url = empty_url,
                      rq_description = None, rq_body = None \<rparr>"

definition request_of :: "item \<Rightarrow> request" where
  "request_of it = (case i_request it of None \<Rightarrow> empty_request | Some rq \<Rightarrow> rq)"

definition compare_postman_items :: "item \<Rightarrow> item \<Rightarrow> changes" where
  "compare_postman_items existing new =
     (let c0 = \<lparr> has_changes = False, ch_headers = None, ch_url = False, ch_body = False,
                 ch_description = None \<rparr>;
          existing_request = request_of existing;
          new_request = request_of new;
          existing_headers = rq_header existing_request;
          new_headers = rq_header new_request;
          c1 = (if headers_different existing_headers new_headers
                then c0\<lparr> has_changes := True,
                         ch_headers := Some (length existing_headers, length new_headers) \<rparr>
                else c0);
          c2 = (if url_different (rq_url existing_request) (rq_url new_request)
                then c1\<lparr> has_changes := True, ch_url := True \<rparr>
                else c1);
          c3 = (if body_different (rq_body existing_request) (rq_body new_request)
                then c2\<lparr> has_changes := True, ch_body := True \<rparr>
                else c2);
          existing_desc = item_description existing;
          new_desc = item_description new
      in if existing_desc \<noteq> new_desc
         then c3\<lparr> has_changes := True,
                  ch_description := Some (py_len existing_desc, py_len new_desc) \<rparr>
         else c3)"

definition items_are_different :: "item \<Rightarrow> item \<Rightarrow> bool" where
  "items_are_different existing new \<longleftrightarrow> has_changes (compare_postman_items existing new)"

section \<open>Reconciler\<close>

definition request_key :: "pylib \<Rightarrow> request \<Rightarrow> string" where
  "request_key L rq =
     (case rq_method rq of None \<Rightarrow> ''GET'' | Some m \<Rightarrow> m)
     @ '':'' @ extract_clean_path_from_postman_url L (rq_url rq)"

definition build_existing_lookup :: "pylib \<Rightarrow> item list \<Rightarrow> (string \<times> item) list" where
  "build_existing_lookup L existing_items =
     foldl (\<lambda>lookup it.
              case i_request it of
                None \<Rightarrow> lookup
              | Some rq \<Rightarrow> dict_set (request_key L rq) it lookup)
           [] existing_items"

definition endpoint_key :: "pylib \<Rightarrow> endpoint \<Rightarrow> string" where
  "endpoint_key L ep = method_of ep @ '':'' @ extract_clean_path_from_string L (e_path ep)"

definition endpoint_label :: "pylib \<Rightarrow> endpoint \<Rightarrow> string" where
  "endpoint_label L ep = method_of ep @ '' '' @ extract_clean_path_from_string L (e_path ep)"

record sync =
  existing_lookup :: "(string \<times> item) list"
  new_endpoints :: "string list"
  updated_endpoints :: "string list"
  unchanged_endpoints :: "string list"

text \<open>One round of the loop over the endpoint descriptors.\<close>

definition process_endpoint :: "pylib \<Rightarrow> bool \<Rightarrow> bool \<Rightarrow> sync \<Rightarrow> endpoint \<Rightarrow> py_error + sync" where
  "process_endpoint L include_documentation preserve_existing_docs st ep =
     (let key = endpoint_key L ep;
          new_item = convert_endpoint_to_postman_item L ep include_documentation
      in case map_of (existing_lookup st) key of
           Some existing_item \<Rightarrow>
             (case (if preserve_existing_docs
                    then merge_postman_items_with_preservation existing_item new_item
                    else Inr new_item) of
                Inl err \<Rightarrow> Inl err
              | Inr merged_item \<Rightarrow>
                  if items_are_different existing_item merged_item
                  then Inr (st\<lparr> existing_lookup := dict_set key merged_item (existing_lookup st),
                                updated_endpoints := updated_endpoints st @ [endpoint_label L ep] \<rparr>)
                  else Inr (st\<lparr> unchanged_endpoints :=
                                  unchanged_endpoints st @ [endpoint_label L ep] \<rparr>))
         | None \<Rightarrow>
             Inr (st\<lparr> existing_lookup := dict_set key new_item (existing_lookup st),
                      new_endpoints := new_endpoints st @ [endpoint_label L ep] \<rparr>))"

fun process_endpoints :: "pylib \<Rightarrow> bool \<Rightarrow> bool \<Rightarrow> sync \<Rightarrow> endpoint list \<Rightarrow> py_error + sync" where
  "process_endpoints L inc pres st [] = Inr st"
| "process_endpoints L inc pres st (ep # eps) =
     (case process_endpoint L inc pres st ep of
        Inl err \<Rightarrow> Inl err
      | Inr st' \<Rightarrow> process_endpoints L inc pres st' eps)"

text \<open>
  The reconciliation of \<^verbatim>\<open>smart_update_postman_collection\<close>: from the fetched items
  and the parsed descriptors to the lookup whose values are written back, with the three
  report lists. Credentials, the fetch, the write-back and the status text are outside.
\<close>

definition smart_update_postman_collection ::
    "pylib \<Rightarrow> item list \<Rightarrow> endpoint list \<Rightarrow> bool \<Rightarrow> bool \<Rightarrow> py_error + sync" where
  "smart_update_postman_collection L existing_items endpoints include_documentation
       preserve_existing_docs =
     process_endpoints L include_documentation preserve_existing_docs
       \<lparr> existing_lookup = build_existing_lookup L existing_items,
         new_endpoints = [], updated_endpoints = [], unchanged_endpoints = [] \<rparr>
       endpoints"

text \<open>\<^verbatim>\<open>list(existing_lookup.values())\<close>\<close>

definition collection_items :: "sync \<Rightarrow> item list" where
  "collection_items st = map snd (existing_lookup st)"

section \<open>Document renderer\<close>

text \<open>The literals of the source file for the marks in tables and response headings,
  as the bytes that the file holds.\<close>

definition yes_mark :: string where
  "yes_mark = [CHR 0xE2, CHR 0x80, CHR 0x9A, CHR 0xC3, CHR 0xBA, CHR 0xC3, CHR 0x96]"

definition no_mark :: string where
  "no_mark = [CHR 0xE2, CHR 0x80, CHR 0x9A, CHR 0xC3, CHR 0xB9, CHR 0xC3, CHR 0xA5]"

definition server_error_mark :: string where
  "server_error_mark =
     [CHR 0xEF, CHR 0xA3, CHR 0xBF, CHR 0xC3, CHR 0xBC, CHR 0xC3, CHR 0xAD, CHR 0xE2, CHR 0x80,
      CHR 0xA2]"

definition info_mark :: string where
  "info_mark =
     [CHR 0xE2, CHR 0x80, CHR 0x9A, CHR 0xC3, CHR 0x91, CHR 0xCF, CHR 0x80, CHR 0xC3, CHR 0x94,
      CHR 0xE2, CHR 0x88, CHR 0x8F, CHR 0xC3, CHR 0xA8]"

definition table_head :: string where
  "table_head =
     ''| Name | Type | Required | Description |\<newline>''
     @ ''|------|------|----------|-------------|\<newline>''"

definition table_row :: "param \<Rightarrow> string" where
  "table_row p =
     ''| `'' @ p_name p @ ''` | `'' @ param_type p @ ''` | ''
     @ (if p_required p then yes_mark @ '' Yes'' else no_mark @ '' No'')
     @ '' | ''
     @ (case p_description p of None \<Rightarrow> ''No description provided'' | Some d \<Rightarrow> d)
     @ '' |\<newline>''"

definition table_of :: "param list \<Rightarrow> string" where
  "table_of ps = table_head @ concat (map table_row ps) @ ''\<newline>''"

definition detailed_parameters :: "param list \<Rightarrow> string" where
  "detailed_parameters parameters =
     (if parameters \<noteq> []
      then
        (let query_params = params_at ''query'' parameters;
             path_params = params_at ''path'' parameters;
             header_params = params_at ''header'' parameters;
             body_params = params_at ''body'' parameters;
             form_params = params_at ''form'' parameters
         in ''### Parameters\<newline>\<newline>''
            @ (if query_params \<noteq> []
               then ''#### Query Parameters\<newline>\<newline>'' @ table_of query_params else [])
            @ (if path_params \<noteq> []
               then ''#### Path Parameters\<newline>\<newline>'' @ table_of path_params else [])
            @ (if header_params \<noteq> []
               then ''#### Header Parameters\<newline>\<newline>'' @ table_of header_params else [])
            @ (if body_params \<noteq> [] \<or> form_params \<noteq> []
               then ''#### Request Body\<newline>\<newline>''
                    @ (if body_params \<noteq> []
                       then ''**Content-Type:** `application/json`\<newline>\<newline>''
                            @ table_of body_params
                       else if form_params \<noteq> []
                       then ''**Content-Type:** `application/x-www-form-urlencoded`\<newline>\<newline>''
                            @ table_of form_params
                       else [])
               else []))
      else ''### Parameters\<newline>\<newline>*No parameters required.*\<newline>\<newline>'')"

definition status_mark :: "int \<Rightarrow> string" where
  "status_mark status =
     (if 200 \<le> status \<and> status < 300 then yes_mark
      else if 400 \<le> status \<and> status < 500 then no_mark
      else if 500 \<le> status \<and> status < 600 then server_error_mark
      else info_mark)"

definition detailed_response :: "pylib \<Rightarrow> response \<Rightarrow> string" where
  "detailed_response L r =
     (let status = (case r_status r of None \<Rightarrow> 200 | Some n \<Rightarrow> n)
      in ''#### '' @ status_mark status @ '' '' @ str_of_int status @ '' - ''
         @ r_description r @ ''\<newline>\<newline>''
         @ (if py_truthy (r_example r)
            then ''**Example Response:**\<newline>\<newline>''
                 @ ''```json\<newline>'' @ json_dumps L (r_example r) @ ''\<newline>```\<newline>\<newline>''
            else []))"

definition detailed_responses :: "pylib \<Rightarrow> response list \<Rightarrow> string" where
  "detailed_responses L responses =
     (if responses \<noteq> []
      then ''### Responses\<newline>\<newline>'' @ concat (map (detailed_response L) responses)
      else ''### Responses\<newline>\<newline>*No response examples available.*\<newline>\<newline>'')"

text \<open>The section of the endpoint with number \<open>i\<close> out of \<open>n\<close>.\<close>

definition detailed_section :: "pylib \<Rightarrow> nat \<Rightarrow> nat \<Rightarrow> endpoint \<Rightarrow> string" where
  "detailed_section L n i ep =
     ''## '' @ str_of_nat i @ ''. '' @ method_of ep @ '' ''
       @ extract_clean_path_from_string L (e_path ep) @ ''\<newline>\<newline>''
     @ (if e_description ep \<noteq> []
        then ''**Description:** '' @ e_description ep @ ''\<newline>\<newline>'' else [])
     @ (if e_controller ep \<noteq> [] \<and> e_action ep \<noteq> []
        then ''**Controller:** `'' @ e_controller ep @ ''#'' @ e_action ep @ ''`\<newline>\<newline>''
        else [])
     @ detailed_parameters (e_parameters ep)
     @ detailed_responses L (e_responses ep)
     @ (if i < n then ''---\<newline>\<newline>'' else [])"

fun detailed_sections :: "pylib \<Rightarrow> nat \<Rightarrow> nat \<Rightarrow> endpoint list \<Rightarrow> string" where
  "detailed_sections L n i [] = []"
| "detailed_sections L n i (ep # eps) =
     detailed_section L n i ep @ detailed_sections L n (Suc i) eps"

definition generate_detailed_markdown :: "pylib \<Rightarrow> endpoint list \<Rightarrow> string" where
  "generate_detailed_markdown L endpoints =
     ''# API Documentation\<newline>\<newline>''
     @ ''This documentation was auto-generated from Rails controller analysis.\<newline>\<newline>''
     @ ''---\<newline>\<newline>''
     @ detailed_sections L (length endpoints) 1 endpoints
     @ ''\<newline>---\<newline>\<newline>''
     @ ''*Generated on '' @ now_stamp L @ ''*\<newline>''"

definition compact_line :: "pylib \<Rightarrow> endpoint \<Rightarrow> string" where
  "compact_line L ep =
     ''- **'' @ extract_clean_path_from_string L (e_path ep) @ ''**''
     @ (if e_description ep \<noteq> [] then '' - '' @ e_description ep else [])
     @ (if e_controller ep \<noteq> [] \<and> e_action ep \<noteq> []
        then '' (`'' @ e_controller ep @ ''#'' @ e_action ep @ ''`)'' else [])
     @ ''\<newline>''"

definition compact_group :: "pylib \<Rightarrow> endpoint list \<Rightarrow> string \<Rightarrow> string" where
  "compact_group L endpoints method =
     (let grp = filter (\<lambda>ep. method_of ep = method) endpoints
      in if grp = [] then []
         else ''## '' @ method @ '' Endpoints\<newline>\<newline>''
              @ concat (map (compact_line L) grp) @ ''\<newline>'')"

definition generate_compact_markdown :: "pylib \<Rightarrow> endpoint list \<Rightarrow> string" where
  "generate_compact_markdown L endpoints =
     ''# API Endpoints\<newline>\<newline>''
     @ ''Quick reference for all available API endpoints.\<newline>\<newline>''
     @ concat (map (compact_group L endpoints) [''GET'', ''POST'', ''PUT'', ''PATCH'', ''DELETE''])
     @ ''*Generated on '' @ now_stamp L @ ''*\<newline>''"

definition no_endpoints_text :: string where
  "no_endpoints_text =
     ''# API Documentation\<newline>\<newline>No endpoints found in the provided data.\<newline>''"

definition generate_markdown_docs :: "pylib \<Rightarrow> endpoint list \<Rightarrow> string \<Rightarrow> string" where
  "generate_markdown_docs L endpoints style =
     (if endpoints = [] then no_endpoints_text
      else if style = ''detailed'' then generate_detailed_markdown L endpoints
      else if style = ''compact'' then generate_compact_markdown L endpoints
      else generate_detailed_markdown L endpoints)"

text \<open>
  The argument \<^verbatim>\<open>api_data\<close>: a JSON string, a parsed dictionary (its descriptors), or a
  value of another type (the text that \<^verbatim>\<open>type(api_data)\<close> prints).
\<close>

datatype api_data = ApiStr string | ApiDict "endpoint list" | ApiOther string

definition unsupported_format :: "string \<Rightarrow> string" where
  "unsupported_format format_type =
     ''Error: Unsupported format_type '' @ [CHR 0x27] @ format_type @ [CHR 0x27]
     @ ''. Use '' @ [CHR 0x27] @ ''markdown'' @ [CHR 0x27] @ '' or '' @ [CHR 0x27] @ ''json''
     @ [CHR 0x27] @ ''.''"

definition render_documentation :: "pylib \<Rightarrow> endpoint list \<Rightarrow> string \<Rightarrow> string \<Rightarrow> string" where
  "render_documentation L endpoints format_type template_style =
     (if format_type = ''markdown'' then generate_markdown_docs L endpoints template_style
      else if format_type = ''json'' then json_dumps_endpoints L endpoints
      else unsupported_format format_type)"

text \<open>
  A parsed value that is not a dictionary has no \<^verbatim>\<open>get\<close>: with the format
  \<^verbatim>\<open>markdown\<close> the call in \<^verbatim>\<open>generate_markdown_docs\<close> raises \<^verbatim>\<open>AttributeError\<close>,
  which the handler \<^verbatim>\<open>except Exception\<close> turns into an error text. The other two
  branches do not touch the value beyond printing it. On a dictionary of the shape of
  the data model no call of the renderers raises.
\<close>

fun py_type_name :: "json \<Rightarrow> string" where
  "py_type_name JNull = ''NoneType''"
| "py_type_name (JBool b) = ''bool''"
| "py_type_name (JInt i) = ''int''"
| "py_type_name (JStr s) = ''str''"
| "py_type_name (JArr xs) = ''list''"
| "py_type_name (JObj kvs) = ''dict''"

definition attribute_error :: "json \<Rightarrow> string" where
  "attribute_error v =
     [CHR 0x27] @ py_type_name v @ [CHR 0x27] @ '' object has no attribute ''
     @ [CHR 0x27] @ ''get'' @ [CHR 0x27]"

definition render_other :: "pylib \<Rightarrow> json \<Rightarrow> string \<Rightarrow> string" where
  "render_other L v format_type =
     (if format_type = ''markdown''
      then ''Error generating documentation: '' @ attribute_error v
      else if format_type = ''json'' then json_dumps L v
      else unsupported_format format_type)"

definition generate_api_documentation :: "pylib \<Rightarrow> api_data \<Rightarrow> string \<Rightarrow> string \<Rightarrow> string" where
  "generate_api_documentation L api format_type template_style =
     (case api of
        ApiStr s \<Rightarrow>
          (case json_loads L s of
             DecodeError msg \<Rightarrow> ''Error parsing API data: '' @ msg
           | LoadedDict endpoints \<Rightarrow>
               render_documentation L endpoints format_type template_style
           | LoadedOther v \<Rightarrow> render_other L v format_type)
      | ApiDict endpoints \<Rightarrow> render_documentation L endpoints format_type template_style
      | ApiOther ty \<Rightarrow>
          ''Error: api_data must be a JSON string or dict object, got '' @ ty)"

section \<open>Auxiliary notions and sample data\<close>

definition candidate :: "pylib \<Rightarrow> bool \<Rightarrow> bool \<Rightarrow> item \<Rightarrow> endpoint \<Rightarrow> py_error + item" where
  "candidate L inc pres existing_item ep =
     (if pres
      then merge_postman_items_with_preservation existing_item
             (convert_endpoint_to_postman_item L ep inc)
      else Inr (convert_endpoint_to_postman_item L ep inc))"


definition lookup_step :: "pylib \<Rightarrow> (string \<times> item) list \<Rightarrow> item \<Rightarrow> (string \<times> item) list" where
  "lookup_step L lookup it =
     (case i_request it of None \<Rightarrow> lookup | Some rq \<Rightarrow> dict_set (request_key L rq) it lookup)"

text \<open>The key under which an existing entry is stored, if it has a request.\<close>

definition item_key :: "pylib \<Rightarrow> item \<Rightarrow> string option" where
  "item_key L it = map_option (request_key L) (i_request it)"

definition bare_endpoint :: "string \<Rightarrow> endpoint" where
  "bare_endpoint path =
     \<lparr> e_method = Some ''GET'', e_path = path, e_controller = [], e_action = [],
       e_description = [], e_parameters = [], e_responses = [] \<rparr>"

definition stored_item :: "string \<Rightarrow> string list \<Rightarrow> string option \<Rightarrow> item" where
  "stored_item name segs desc =
     \<lparr> i_name = Some name,
       i_request = Some \<lparr> rq_method = Some ''GET'', rq_header = [],
         rq_url = \<lparr> u_raw = None, u_path = Some segs, u_query = None \<rparr>,
         rq_description = desc, rq_body = None \<rparr>,
       i_other = [] \<rparr>"

definition renamed_item :: item where
  "renamed_item = stored_item ''Renamed by hand'' [''widgets'']
     (Some (generate_request_documentation idle_lib (bare_endpoint ''/widgets'')))"

definition request_method :: "request \<Rightarrow> string" where
  "request_method rq = (case rq_method rq of None \<Rightarrow> ''GET'' | Some m \<Rightarrow> m)"

definition decode_key :: "pylib \<Rightarrow> item \<Rightarrow> (string \<times> string) option" where
  "decode_key L it =
     map_option (\<lambda>rq. (request_method rq, extract_clean_path_from_postman_url L (rq_url rq)))
       (i_request it)"

definition well_keyed :: "pylib \<Rightarrow> (string \<times> item) list \<Rightarrow> bool" where
  "well_keyed L lk \<longleftrightarrow> list_all (\<lambda>(k, v). item_key L v = Some k) lk"

text \<open>A stored item is settled for a descriptor when the next pass leaves it alone.\<close>

definition settled :: "pylib \<Rightarrow> bool \<Rightarrow> endpoint \<Rightarrow> item \<Rightarrow> bool" where
  "settled L inc d v \<longleftrightarrow>
     (case candidate L inc True v d of Inl err \<Rightarrow> False | Inr m \<Rightarrow> \<not> items_are_different v m)"

definition described_endpoint :: endpoint where
  "described_endpoint = (bare_endpoint ''/widgets'')\<lparr> e_description := ''Lists widgets.'' \<rparr>"

definition described_item :: "string \<Rightarrow> item" where
  "described_item desc =
     \<lparr> i_name = Some ''GET /widgets'',
       i_request = Some \<lparr> rq_method = Some ''GET'', rq_header = [],
         rq_url = \<lparr> u_raw = Some ''/widgets'', u_path = Some [''widgets''], u_query = None \<rparr>,
         rq_description = Some desc, rq_body = None \<rparr>,
       i_other = [] \<rparr>"






section \<open>Properties of the path normalizer\<close>


lemma strip_first_ext_take: "\<exists>n. strip_first_ext exts p = take n p"
proof (induction exts)
  case Nil
  have "strip_first_ext [] p = take (length p) p" by simp
  then show ?case by blast
next
  case (Cons e es)
  then show ?case by auto
qed

lemma remove_format_extension_take: "\<exists>n. remove_format_extension p = take n p"
  unfolding remove_format_extension_def by (rule strip_first_ext_take)

lemma strip_first_ext_id: "\<not> list_ex (endswith p) exts \<Longrightarrow> strip_first_ext exts p = p"
  by (induction exts) auto

lemma strip_first_ext_shorter:
  "list_ex (endswith p) exts \<Longrightarrow> \<forall>e\<in>set exts. e \<noteq> [] \<Longrightarrow> length (strip_first_ext exts p) < length p"
proof (induction exts)
  case Nil
  then show ?case by simp
next
  case (Cons e es)
  show ?case
  proof (cases "endswith p e")
    case True
    then have "length e \<le> length p" by (simp add: endswith_def)
    moreover have "0 < length e" using Cons.prems(2) by simp
    ultimately have "length p - length e < length p" by arith
    with True show ?thesis by simp
  next
    case False
    with Cons show ?thesis by simp
  qed
qed

lemma remove_format_extension_fixed:
  "remove_format_extension p = p \<longleftrightarrow> \<not> has_format_extension p"
proof (cases "has_format_extension p")
  case True
  then have "length (remove_format_extension p) < length p"
    unfolding remove_format_extension_def has_format_extension_def
    by (rule strip_first_ext_shorter) (simp add: format_extensions_def)
  with True show ?thesis by auto
next
  case False
  then show ?thesis
    unfolding remove_format_extension_def has_format_extension_def
    by (simp add: strip_first_ext_id)
qed

lemma startswith_take: "startswith (take n s) p \<Longrightarrow> startswith s p"
proof -
  assume a: "startswith (take n s) p"
  then have "length p \<le> length (take n s)" by (rule startswith_length)
  then have "length p \<le> n" by simp
  then have "take (length p) (take n s) = take (length p) s" by (simp add: min_def)
  with a show ?thesis by (simp add: startswith_def)
qed

lemma str_find_char_None: "str_find s [c] = None \<longleftrightarrow> c \<notin> set s"
  by (induction s) (auto simp: startswith_def)

lemma contains_char: "contains s [c] \<longleftrightarrow> c \<in> set s"
  by (simp add: contains_def str_find_char_None)

lemma str_find_char_Some: "str_find s [c] = Some i \<Longrightarrow> c \<notin> set (take i s)"
proof (induction s arbitrary: i)
  case Nil
  then show ?case by simp
next
  case (Cons a s)
  then show ?case by (auto simp: startswith_def split: if_splits)
qed

lemma first_part_split_char:
  "\<exists>n. first_part (str_split s [c]) = take n s \<and> c \<notin> set (first_part (str_split s [c]))"
proof (cases "str_find s [c]")
  case None
  then have "first_part (str_split s [c]) = take (length s) s"
    by (simp add: str_split.simps first_part_def)
  moreover have "c \<notin> set s"
    using None by (simp add: str_find_char_None)
  ultimately show ?thesis by (metis take_all order_refl)
next
  case (Some i)
  then have "first_part (str_split s [c]) = take i s"
    by (simp add: str_split.simps first_part_def)
  with Some show ?thesis using str_find_char_Some by metis
qed

lemma bare_normal_form:
  assumes "\<not> startswith x ''http''"
  shows "\<not> startswith (extract_clean_path_from_string L x) ''http''
         \<and> \<not> contains (extract_clean_path_from_string L x) ''?''"
proof -
  define y0 where "y0 = (if contains x ''?'' then first_part (str_split x ''?'') else x)"
  have y: "extract_clean_path_from_string L x = remove_format_extension y0"
    using assms by (simp add: extract_clean_path_from_string_def y0_def)
  obtain n where n: "y0 = take n x" and q: "CHR ''?'' \<notin> set y0"
  proof (cases "contains x ''?''")
    case True
    with first_part_split_char[of x "CHR ''?''"] that show ?thesis by (auto simp: y0_def)
  next
    case False
    then have "y0 = take (length x) x" "CHR ''?'' \<notin> set y0"
      by (simp_all add: y0_def contains_char)
    with that show ?thesis by blast
  qed
  obtain m where m: "remove_format_extension y0 = take m y0"
    using remove_format_extension_take by blast
  have "\<not> startswith (take m (take n x)) ''http''"
    using assms startswith_take by blast
  moreover have "CHR ''?'' \<notin> set (take m y0)"
    using q by (meson in_set_takeD)
  ultimately show ?thesis using y m n by (simp add: contains_char)
qed

lemma normalize_clean:
  assumes "\<not> startswith y ''http''" "\<not> contains y ''?''"
  shows "extract_clean_path_from_string L y = remove_format_extension y"
  using assms by (simp add: extract_clean_path_from_string_def)

text \<open>
  C3 (as amended). Normalizing twice equals normalizing once exactly when the first
  result no longer ends in one of the six format suffixes: this holds for every bare
  path (an input that does not start with \<^verbatim>\<open>http\<close>). For any input, full URLs
  included, a first result that does not start with \<^verbatim>\<open>http\<close>, has no \<^verbatim>\<open>?\<close> and ends in
  no format suffix is returned unchanged by a second normalization.
\<close>

theorem normalize_idempotent_iff:
  "(\<not> startswith x ''http'' \<longrightarrow>
      (extract_clean_path_from_string L (extract_clean_path_from_string L x)
         = extract_clean_path_from_string L x
       \<longleftrightarrow> \<not> has_format_extension (extract_clean_path_from_string L x)))
   \<and> (\<not> startswith (extract_clean_path_from_string L x) ''http''
      \<and> \<not> contains (extract_clean_path_from_string L x) ''?''
      \<and> \<not> has_format_extension (extract_clean_path_from_string L x) \<longrightarrow>
      extract_clean_path_from_string L (extract_clean_path_from_string L x)
         = extract_clean_path_from_string L x)"
  using bare_normal_form[of x L] normalize_clean[of "extract_clean_path_from_string L x" L]
  by (auto simp: remove_format_extension_fixed)

lemma normalize_users_query:
  "extract_clean_path_from_string idle_lib ''/users.json?active=true'' = ''/users''"
  by (simp add: extract_clean_path_from_string_def startswith_def contains_def
      str_split.simps first_part_def remove_format_extension_def format_extensions_def
      endswith_def)

theorem normalize_idempotent_iff_witness:
  "\<not> startswith ''/users.json?active=true'' ''http''
   \<and> \<not> startswith (extract_clean_path_from_string idle_lib ''/users.json?active=true'') ''http''
   \<and> \<not> contains (extract_clean_path_from_string idle_lib ''/users.json?active=true'') ''?''
   \<and> \<not> has_format_extension (extract_clean_path_from_string idle_lib ''/users.json?active=true'')
   \<and> extract_clean_path_from_string idle_lib
        (extract_clean_path_from_string idle_lib ''/users.json?active=true'')
      = extract_clean_path_from_string idle_lib ''/users.json?active=true''"
proof -
  have h1: "\<not> startswith ''/users.json?active=true'' ''http''"
    by (simp add: startswith_def)
  have h2: "\<not> has_format_extension (extract_clean_path_from_string idle_lib ''/users.json?active=true'')"
    by (simp add: normalize_users_query has_format_extension_def format_extensions_def
        endswith_def)
  have h3: "\<not> startswith (extract_clean_path_from_string idle_lib ''/users.json?active=true'') ''http''"
    by (simp add: normalize_users_query startswith_def)
  have h4: "\<not> contains (extract_clean_path_from_string idle_lib ''/users.json?active=true'') ''?''"
    by (simp add: normalize_users_query contains_def startswith_def)
  from normalize_idempotent_iff[of "''/users.json?active=true''" idle_lib] h1 h2
  have "extract_clean_path_from_string idle_lib
          (extract_clean_path_from_string idle_lib ''/users.json?active=true'')
        = extract_clean_path_from_string idle_lib ''/users.json?active=true''"
    by blast
  with h1 h2 h3 h4 show ?thesis by blast
qed

text \<open>
  The claim as stated fails: the normal form of \<^verbatim>\<open>/a.json.json\<close> is \<^verbatim>\<open>/a.json\<close>, whose
  normal form is \<^verbatim>\<open>/a\<close>.
\<close>

theorem normalize_not_idempotent:
  "extract_clean_path_from_string idle_lib ''/a.json.json'' = ''/a.json''
   \<and> extract_clean_path_from_string idle_lib
         (extract_clean_path_from_string idle_lib ''/a.json.json'') = ''/a''"
  by (simp add: extract_clean_path_from_string_def startswith_def contains_def
      remove_format_extension_def format_extensions_def endswith_def)

section \<open>Properties of the content merge engine\<close>

lemma contains_find: "contains s m \<Longrightarrow> \<exists>i. str_find s m = Some i"
  by (auto simp: contains_def)

lemma first_part_split_found:
  "m \<noteq> [] \<Longrightarrow> str_find s m = Some i \<Longrightarrow> first_part (str_split s m) = take i s"
  by (simp add: str_split.simps first_part_def)

lemma marked_request:
  assumes "contains existing request_start_marker" "contains existing request_end_marker"
    and "new \<noteq> []" "existing \<noteq> new"
  shows "merge_request_descriptions existing new
         = rebuilt (strip (text_before existing request_start_marker)) new
                   (strip (text_after existing request_end_marker))"
proof -
  obtain i j where i: "str_find existing request_start_marker = Some i"
    and j: "str_find existing request_end_marker = Some j"
    using assms contains_find by blast
  have ne: "existing \<noteq> []"
    using i by (auto simp: request_start_marker_def)
  have m: "request_start_marker \<noteq> []" by (simp add: request_start_marker_def)
  show ?thesis
    using assms ne i j first_part_split_found[OF m i]
    by (simp add: merge_request_descriptions_def Let_def str_split1_def text_before_def
        text_after_def rebuilt_def)
qed

lemma marked_collection:
  assumes "contains existing collection_start_marker" "contains existing collection_end_marker"
    and "new \<noteq> []" "existing \<noteq> new"
  shows "merge_descriptions existing new
         = rebuilt (strip (text_before existing collection_start_marker)) new
                   (strip (text_after existing collection_end_marker))"
proof -
  obtain i j where i: "str_find existing collection_start_marker = Some i"
    and j: "str_find existing collection_end_marker = Some j"
    using assms contains_find by blast
  have ne: "existing \<noteq> []"
    using i by (auto simp: collection_start_marker_def)
  have m: "collection_start_marker \<noteq> []" by (simp add: collection_start_marker_def)
  show ?thesis
    using assms ne i j first_part_split_found[OF m i]
    by (simp add: merge_descriptions_def Let_def str_split1_def text_before_def
        text_after_def rebuilt_def)
qed

lemma strip_empty: "strip [] = []"
  by (simp add: strip_def lstrip_def rstrip_def strip_prefixes.simps whitespace_def startswith_def)

lemma strip_manual: "strip ''Manual note.\<newline>\<newline>'' = ''Manual note.''"
  by (simp add: strip_def lstrip_def rstrip_def strip_prefixes.simps whitespace_def startswith_def)

lemma strip_a: "strip ''a'' = ''a''" "strip ''c'' = ''c''"
  by (simp_all add: strip_def lstrip_def rstrip_def strip_prefixes.simps whitespace_def startswith_def)

text \<open>
  C5 (as amended). When the existing text contains both markers and the fresh text is
  not empty and differs from the existing text, the merge returns the trimmed text
  before the first start marker (followed by a blank line when it is not empty), the
  fresh text, and the trimmed text after the first end marker of the existing text
  (preceded by a blank line when it is not empty). This holds for the request markers
  and for the collection markers. With an old block between the markers and nothing
  else, the result is the fresh text; with a manual note before the block, it is the
  note, a blank line and the fresh text.
\<close>

theorem merge_with_markers:
  "(contains existing request_start_marker \<and> contains existing request_end_marker
      \<and> new \<noteq> [] \<and> existing \<noteq> new \<longrightarrow>
      merge_request_descriptions existing new
      = rebuilt (strip (text_before existing request_start_marker)) new
                (strip (text_after existing request_end_marker)))
   \<and> (contains existing collection_start_marker \<and> contains existing collection_end_marker
      \<and> new \<noteq> [] \<and> existing \<noteq> new \<longrightarrow>
      merge_descriptions existing new
      = rebuilt (strip (text_before existing collection_start_marker)) new
                (strip (text_after existing collection_end_marker)))
   \<and> merge_request_descriptions
        (request_start_marker @ ''\<newline>OLDGEN\<newline>'' @ request_end_marker) ''NEWGEN''
      = ''NEWGEN''
   \<and> merge_request_descriptions
        (''Manual note.\<newline>\<newline>'' @ request_start_marker @ ''\<newline>OLDGEN\<newline>''
           @ request_end_marker) ''NEWGEN''
      = ''Manual note.\<newline>\<newline>NEWGEN''
   \<and> merge_descriptions
        (collection_start_marker @ ''\<newline>OLDGEN\<newline>'' @ collection_end_marker) ''NEWGEN''
      = ''NEWGEN''
   \<and> merge_descriptions
        (''Manual note.\<newline>\<newline>'' @ collection_start_marker @ ''\<newline>OLDGEN\<newline>''
           @ collection_end_marker) ''NEWGEN''
      = ''Manual note.\<newline>\<newline>NEWGEN''"
proof -
  have "merge_request_descriptions
          (request_start_marker @ ''\<newline>OLDGEN\<newline>'' @ request_end_marker) ''NEWGEN''
        = ''NEWGEN''"
    by (simp add: merge_request_descriptions_def Let_def str_split1_def str_split.simps
        first_part_def request_start_marker_def request_end_marker_def contains_def
        startswith_def strip_empty)
  moreover have "merge_request_descriptions
          (''Manual note.\<newline>\<newline>'' @ request_start_marker @ ''\<newline>OLDGEN\<newline>''
             @ request_end_marker) ''NEWGEN''
        = ''Manual note.\<newline>\<newline>NEWGEN''"
    by (simp add: merge_request_descriptions_def Let_def str_split1_def str_split.simps
        first_part_def request_start_marker_def request_end_marker_def contains_def
        startswith_def strip_empty strip_manual)
  moreover have "merge_descriptions
          (collection_start_marker @ ''\<newline>OLDGEN\<newline>'' @ collection_end_marker) ''NEWGEN''
        = ''NEWGEN''"
    by (simp add: merge_descriptions_def Let_def str_split1_def str_split.simps
        first_part_def collection_start_marker_def collection_end_marker_def contains_def
        startswith_def strip_empty)
  moreover have "merge_descriptions
          (''Manual note.\<newline>\<newline>'' @ collection_start_marker @ ''\<newline>OLDGEN\<newline>''
             @ collection_end_marker) ''NEWGEN''
        = ''Manual note.\<newline>\<newline>NEWGEN''"
    by (simp add: merge_descriptions_def Let_def str_split1_def str_split.simps
        first_part_def collection_start_marker_def collection_end_marker_def contains_def
        startswith_def strip_empty strip_manual)
  ultimately show ?thesis
    using marked_request[of existing new] marked_collection[of existing new] by blast
qed

theorem merge_with_markers_witness:
  "contains (''Manual note.\<newline>\<newline>'' @ request_start_marker @ ''\<newline>OLDGEN\<newline>''
              @ request_end_marker) request_start_marker
   \<and> contains (''Manual note.\<newline>\<newline>'' @ request_start_marker @ ''\<newline>OLDGEN\<newline>''
              @ request_end_marker) request_end_marker
   \<and> ''NEWGEN'' \<noteq> []
   \<and> ''Manual note.\<newline>\<newline>'' @ request_start_marker @ ''\<newline>OLDGEN\<newline>''
        @ request_end_marker \<noteq> ''NEWGEN''
   \<and> merge_request_descriptions
        (''Manual note.\<newline>\<newline>'' @ request_start_marker @ ''\<newline>OLDGEN\<newline>''
           @ request_end_marker) ''NEWGEN''
      = rebuilt
          (strip (text_before (''Manual note.\<newline>\<newline>'' @ request_start_marker
                     @ ''\<newline>OLDGEN\<newline>'' @ request_end_marker) request_start_marker))
          ''NEWGEN''
          (strip (text_after (''Manual note.\<newline>\<newline>'' @ request_start_marker
                     @ ''\<newline>OLDGEN\<newline>'' @ request_end_marker) request_end_marker))"
proof -
  let ?ex = "''Manual note.\<newline>\<newline>'' @ request_start_marker @ ''\<newline>OLDGEN\<newline>''
               @ request_end_marker"
  have h1: "contains ?ex request_start_marker"
    by (simp add: contains_def startswith_def request_start_marker_def request_end_marker_def)
  have h2: "contains ?ex request_end_marker"
    by (simp add: contains_def startswith_def request_start_marker_def request_end_marker_def)
  have h3: "''NEWGEN'' \<noteq> []" by simp
  have h4: "?ex \<noteq> ''NEWGEN''" by simp
  from merge_with_markers[of ?ex "''NEWGEN''"] h1 h2 h3 h4 show ?thesis by blast
qed

text \<open>
  The claim as stated, for every fresh text that is not empty, fails where the fresh
  text equals the existing text and has manual text outside the markers: the merge
  returns the text as it is, not the rebuilt layout.
\<close>

theorem merge_equal_texts_not_rebuilt:
  "contains (''a'' @ request_start_marker @ ''b'' @ request_end_marker @ ''c'') request_start_marker
   \<and> contains (''a'' @ request_start_marker @ ''b'' @ request_end_marker @ ''c'') request_end_marker
   \<and> merge_request_descriptions
        (''a'' @ request_start_marker @ ''b'' @ request_end_marker @ ''c'')
        (''a'' @ request_start_marker @ ''b'' @ request_end_marker @ ''c'')
      = ''a'' @ request_start_marker @ ''b'' @ request_end_marker @ ''c''
   \<and> rebuilt
        (strip (text_before (''a'' @ request_start_marker @ ''b'' @ request_end_marker @ ''c'')
                  request_start_marker))
        (''a'' @ request_start_marker @ ''b'' @ request_end_marker @ ''c'')
        (strip (text_after (''a'' @ request_start_marker @ ''b'' @ request_end_marker @ ''c'')
                  request_end_marker))
      = ''a\<newline>\<newline>a'' @ request_start_marker @ ''b'' @ request_end_marker @ ''c\<newline>\<newline>c''"
  by (simp add: merge_request_descriptions_def text_before_def text_after_def rebuilt_def
      request_start_marker_def request_end_marker_def contains_def startswith_def strip_a)

lemma unmarked_request:
  assumes "existing \<noteq> []" "new \<noteq> []" "existing \<noteq> new"
    "\<not> (contains existing request_start_marker \<and> contains existing request_end_marker)"
    "\<not> legacy_request_text existing"
  shows "merge_request_descriptions existing new = existing @ ''\<newline>\<newline>---\<newline>\<newline>'' @ new"
  using assms by (auto simp add: merge_request_descriptions_def)

lemma unmarked_collection:
  assumes "existing \<noteq> []" "new \<noteq> []" "existing \<noteq> new"
    "\<not> (contains existing collection_start_marker \<and> contains existing collection_end_marker)"
    "\<not> legacy_collection_text existing"
  shows "merge_descriptions existing new = existing @ ''\<newline>\<newline>---\<newline>\<newline>'' @ new"
  using assms by (auto simp add: merge_descriptions_def)

lemma dnt: "\<not> contains ''Do not touch.'' request_start_marker" "\<not> legacy_request_text ''Do not touch.''"
  "\<not> contains ''Do not touch.'' collection_start_marker" "\<not> legacy_collection_text ''Do not touch.''"
  by (simp_all add: contains_def startswith_def request_start_marker_def legacy_request_text_def
     collection_start_marker_def legacy_collection_text_def)

text \<open>
  C6. An existing text that is not empty, does not carry the marker pair and matches no
  legacy fingerprint is kept whole: for a fresh text that is not empty and differs from
  it, the merge returns the existing text, a horizontal rule between blank lines, and
  the fresh text. This holds for request descriptions and for the collection description.
\<close>

theorem merge_keeps_manual_text:
  "(existing \<noteq> [] \<and> new \<noteq> [] \<and> existing \<noteq> new
      \<and> \<not> (contains existing request_start_marker \<and> contains existing request_end_marker)
      \<and> \<not> legacy_request_text existing \<longrightarrow>
      merge_request_descriptions existing new
      = existing @ ''\<newline>\<newline>---\<newline>\<newline>'' @ new)
   \<and> (existing \<noteq> [] \<and> new \<noteq> [] \<and> existing \<noteq> new
      \<and> \<not> (contains existing collection_start_marker \<and> contains existing collection_end_marker)
      \<and> \<not> legacy_collection_text existing \<longrightarrow>
      merge_descriptions existing new
      = existing @ ''\<newline>\<newline>---\<newline>\<newline>'' @ new)"
  using unmarked_request[of existing new] unmarked_collection[of existing new] by blast

theorem merge_keeps_manual_text_witness:
  "''Do not touch.'' \<noteq> [] \<and> ''NEWGEN'' \<noteq> [] \<and> ''Do not touch.'' \<noteq> ''NEWGEN''
   \<and> \<not> (contains ''Do not touch.'' request_start_marker
         \<and> contains ''Do not touch.'' request_end_marker)
   \<and> \<not> legacy_request_text ''Do not touch.''
   \<and> \<not> (contains ''Do not touch.'' collection_start_marker
         \<and> contains ''Do not touch.'' collection_end_marker)
   \<and> \<not> legacy_collection_text ''Do not touch.''
   \<and> merge_request_descriptions ''Do not touch.'' ''NEWGEN''
      = ''Do not touch.\<newline>\<newline>---\<newline>\<newline>NEWGEN''
   \<and> merge_descriptions ''Do not touch.'' ''NEWGEN''
      = ''Do not touch.\<newline>\<newline>---\<newline>\<newline>NEWGEN''"
proof -
  have h: "''Do not touch.'' \<noteq> []" "''NEWGEN'' \<noteq> []" "''Do not touch.'' \<noteq> ''NEWGEN''"
    by simp_all
  from merge_keeps_manual_text[of "''Do not touch.''" "''NEWGEN''"] h dnt
  show ?thesis by simp
qed

section \<open>Properties of the change detector\<close>

text \<open>
  C7 (as amended). The change flag is the disjunction of the four axes, and each axis
  records its own entry whether or not another axis differs. Headers differ when their
  counts or their key sets differ, and so do the query parameters of the URL. A body
  counts as missing when it is absent or an empty object: two missing bodies are the
  same, a missing and a present body differ, and two present bodies differ exactly
  when their modes differ. Descriptions differ when the strings are not equal.
\<close>

theorem compare_axes:
  "(has_changes (compare_postman_items e n) \<longleftrightarrow>
      headers_different (rq_header (request_of e)) (rq_header (request_of n))
      \<or> url_different (rq_url (request_of e)) (rq_url (request_of n))
      \<or> body_different (rq_body (request_of e)) (rq_body (request_of n))
      \<or> item_description e \<noteq> item_description n)
   \<and> (ch_headers (compare_postman_items e n) \<noteq> None \<longleftrightarrow>
        headers_different (rq_header (request_of e)) (rq_header (request_of n)))
   \<and> (ch_url (compare_postman_items e n) \<longleftrightarrow>
        url_different (rq_url (request_of e)) (rq_url (request_of n)))
   \<and> (ch_body (compare_postman_items e n) \<longleftrightarrow>
        body_different (rq_body (request_of e)) (rq_body (request_of n)))
   \<and> (ch_description (compare_postman_items e n) \<noteq> None \<longleftrightarrow>
        item_description e \<noteq> item_description n)
   \<and> (headers_different hs hs' \<longleftrightarrow>
        length hs \<noteq> length hs' \<or> set (map h_key hs) \<noteq> set (map h_key hs'))
   \<and> (url_different u u' \<longleftrightarrow>
        length (url_query u) \<noteq> length (url_query u')
        \<or> set (map q_key (url_query u)) \<noteq> set (map q_key (url_query u')))
   \<and> (body_falsy b \<and> body_falsy b' \<longrightarrow> \<not> body_different b b')
   \<and> (body_falsy b \<noteq> body_falsy b' \<longrightarrow> body_different b b')
   \<and> (\<not> body_falsy b \<and> \<not> body_falsy b' \<longrightarrow>
        (body_different b b' \<longleftrightarrow> body_mode b \<noteq> body_mode b'))"
  by (simp add: compare_postman_items_def Let_def headers_different_def url_different_def
      body_different_def)

theorem compare_axes_witness:
  "body_falsy None \<and> body_falsy None \<and> \<not> body_different None None
   \<and> body_falsy None
       \<noteq> body_falsy (Some \<lparr> b_mode = Some ''raw'', b_raw = Some ''{}'', b_urlencoded = None,
                            b_options = None, b_other = [] \<rparr>)
   \<and> body_different None
        (Some \<lparr> b_mode = Some ''raw'', b_raw = Some ''{}'', b_urlencoded = None,
                b_options = None, b_other = [] \<rparr>)
   \<and> \<not> body_falsy (Some \<lparr> b_mode = Some ''raw'', b_raw = Some ''{}'', b_urlencoded = None,
                           b_options = None, b_other = [] \<rparr>)
   \<and> \<not> body_falsy (Some \<lparr> b_mode = Some ''urlencoded'', b_raw = None, b_urlencoded = Some [],
                           b_options = None, b_other = [] \<rparr>)
   \<and> body_different
        (Some \<lparr> b_mode = Some ''raw'', b_raw = Some ''{}'', b_urlencoded = None,
                b_options = None, b_other = [] \<rparr>)
        (Some \<lparr> b_mode = Some ''urlencoded'', b_raw = None, b_urlencoded = Some [],
                b_options = None, b_other = [] \<rparr>)"
proof -
  let ?raw = "Some \<lparr> b_mode = Some ''raw'', b_raw = Some ''{}'', b_urlencoded = None,
                     b_options = None, b_other = [] \<rparr>"
  let ?form = "Some \<lparr> b_mode = Some ''urlencoded'', b_raw = None, b_urlencoded = Some [],
                      b_options = None, b_other = [] \<rparr>"
  have f: "body_falsy None" "\<not> body_falsy ?raw" "\<not> body_falsy ?form"
    by (simp_all add: body_falsy_def)
  have m: "body_mode ?raw \<noteq> body_mode ?form"
    by (simp add: body_mode_def)
  from compare_axes[where b = None and b' = None] f
  have "\<not> body_different None None" by blast
  moreover from compare_axes[where b = None and b' = ?raw] f
  have "body_different None ?raw" by blast
  moreover from compare_axes[where b = ?raw and b' = ?form] f m
  have "body_different ?raw ?form" by blast
  ultimately show ?thesis using f by blast
qed

text \<open>
  The claim as stated, that exactly one present body compares as different, fails for
  an existing body that is an empty object against no body: the items compare as
  unchanged.
\<close>

theorem empty_body_compares_same:
  "\<not> body_different
        (Some \<lparr> b_mode = None, b_raw = None, b_urlencoded = None, b_options = None,
                b_other = [] \<rparr>) None
   \<and> \<not> has_changes (compare_postman_items
        \<lparr> i_name = Some ''GET /a'',
          i_request = Some \<lparr> rq_method = Some ''GET'', rq_header = [],
            rq_url = \<lparr> u_raw = Some ''/a'', u_path = Some [''a''], u_query = None \<rparr>,
            rq_description = None,
            rq_body = Some \<lparr> b_mode = None, b_raw = None, b_urlencoded = None,
                              b_options = None, b_other = [] \<rparr> \<rparr>,
          i_other = [] \<rparr>
        \<lparr> i_name = Some ''GET /a'',
          i_request = Some \<lparr> rq_method = Some ''GET'', rq_header = [],
            rq_url = \<lparr> u_raw = Some ''/a'', u_path = Some [''a''], u_query = None \<rparr>,
            rq_description = None, rq_body = None \<rparr>,
          i_other = [] \<rparr>)"
  by (simp add: compare_postman_items_def Let_def headers_different_def url_different_def
      body_different_def body_falsy_def request_of_def item_description_def url_query_def)

section \<open>Properties of the preservation merge\<close>

text \<open>
  C10. For a fresh item that has a request, the preservation merge returns the fresh
  item with every field as it is (name, method, headers, URL, body, other keys) except
  the description of the request, which is the merged description whenever one of the
  two descriptions is not empty. The existing item enters only through its description.
\<close>

theorem preservation_frame:
  assumes "i_request new = Some rq"
  shows "merge_postman_items_with_preservation existing new
         = Inr (new\<lparr> i_request := Some (rq\<lparr> rq_description :=
              (if item_description existing \<noteq> [] \<or> item_description new \<noteq> []
               then Some (merge_request_descriptions (item_description existing)
                            (item_description new))
               else rq_description rq) \<rparr>) \<rparr>)
         \<and> (item_description existing' = item_description existing \<longrightarrow>
              merge_postman_items_with_preservation existing' new
              = merge_postman_items_with_preservation existing new)"
  using assms by (simp add: merge_postman_items_with_preservation_def Let_def)


theorem preservation_frame_witness:
  "i_request \<lparr> i_name = Some ''GET /widgets'',
               i_request = Some \<lparr> rq_method = Some ''GET'', rq_header = [],
                 rq_url = \<lparr> u_raw = Some ''/widgets'', u_path = Some [''widgets''],
                            u_query = None \<rparr>,
                 rq_description = Some ''NEWGEN'', rq_body = None \<rparr>,
               i_other = [] \<rparr>
     = Some \<lparr> rq_method = Some ''GET'', rq_header = [],
              rq_url = \<lparr> u_raw = Some ''/widgets'', u_path = Some [''widgets''],
                         u_query = None \<rparr>,
              rq_description = Some ''NEWGEN'', rq_body = None \<rparr>
   \<and> merge_postman_items_with_preservation
        \<lparr> i_name = Some ''Widgets, renamed by hand'',
          i_request = Some \<lparr> rq_method = Some ''GET'',
            rq_header = [\<lparr> h_key = ''X-Trace'', h_value = ''1'', h_description = None \<rparr>],
            rq_url = \<lparr> u_raw = Some ''/widgets'', u_path = Some [''widgets''], u_query = None \<rparr>,
            rq_description = Some ''Do not touch.'', rq_body = None \<rparr>,
          i_other = [] \<rparr>
        \<lparr> i_name = Some ''GET /widgets'',
          i_request = Some \<lparr> rq_method = Some ''GET'', rq_header = [],
            rq_url = \<lparr> u_raw = Some ''/widgets'', u_path = Some [''widgets''], u_query = None \<rparr>,
            rq_description = Some ''NEWGEN'', rq_body = None \<rparr>,
          i_other = [] \<rparr>
      = Inr \<lparr> i_name = Some ''GET /widgets'',
          i_request = Some \<lparr> rq_method = Some ''GET'', rq_header = [],
            rq_url = \<lparr> u_raw = Some ''/widgets'', u_path = Some [''widgets''], u_query = None \<rparr>,
            rq_description = Some ''Do not touch.\<newline>\<newline>---\<newline>\<newline>NEWGEN'',
            rq_body = None \<rparr>,
          i_other = [] \<rparr>"
proof -
  let ?rq = "\<lparr> rq_method = Some ''GET'', rq_header = [],
              rq_url = \<lparr> u_raw = Some ''/widgets'', u_path = Some [''widgets''],
                         u_query = None \<rparr>,
              rq_description = Some ''NEWGEN'', rq_body = None \<rparr>"
  let ?new = "\<lparr> i_name = Some ''GET /widgets'', i_request = Some ?rq, i_other = [] \<rparr>"
  let ?old = "\<lparr> i_name = Some ''Widgets, renamed by hand'',
          i_request = Some \<lparr> rq_method = Some ''GET'',
            rq_header = [\<lparr> h_key = ''X-Trace'', h_value = ''1'', h_description = None \<rparr>],
            rq_url = \<lparr> u_raw = Some ''/widgets'', u_path = Some [''widgets''], u_query = None \<rparr>,
            rq_description = Some ''Do not touch.'', rq_body = None \<rparr>,
          i_other = [] \<rparr>"
  have h: "i_request ?new = Some ?rq" by simp
  have d: "item_description ?old = ''Do not touch.''" "item_description ?new = ''NEWGEN''"
    by (simp_all add: item_description_def)
  have m: "merge_request_descriptions ''Do not touch.'' ''NEWGEN''
           = ''Do not touch.\<newline>\<newline>---\<newline>\<newline>NEWGEN''"
    using unmarked_request[of "''Do not touch.''" "''NEWGEN''"] dnt by simp
  from preservation_frame[OF h, of ?old ?old] show ?thesis
    by (simp add: d m)
qed

section \<open>Properties of the reconciler\<close>

lemma map_of_dict_set: "map_of (dict_set k v l) = (map_of l)(k \<mapsto> v)"
  by (induction l) (auto simp: fun_eq_iff)

lemma keys_dict_set: "fst ` set (dict_set k v l) = insert k (fst ` set l)"
proof -
  have "dom (map_of (dict_set k v l)) = insert k (dom (map_of l))"
    by (simp add: map_of_dict_set)
  then show ?thesis by (simp add: dom_map_of_conv_image_fst)
qed

lemma distinct_dict_set: "distinct (map fst l) \<Longrightarrow> distinct (map fst (dict_set k v l))"
proof (induction l)
  case Nil
  then show ?case by simp
next
  case (Cons a l)
  obtain k' v' where a: "a = (k', v')" by (cases a)
  show ?case
  proof (cases "k' = k")
    case True
    with Cons.prems a show ?thesis by simp
  next
    case False
    have "k' \<notin> fst ` set (dict_set k v l)"
      using Cons.prems a False by (simp add: keys_dict_set)
    with Cons a False show ?thesis by simp
  qed
qed

lemma convert_request:
  "\<exists>rq. i_request (convert_endpoint_to_postman_item L ep inc) = Some rq"
  by (simp add: convert_endpoint_to_postman_item_def Let_def)

lemma merge_total:
  "i_request new = Some rq \<Longrightarrow> \<exists>m. merge_postman_items_with_preservation existing new = Inr m"
  by (simp add: merge_postman_items_with_preservation_def Let_def)

lemma candidate_total: "\<exists>m. candidate L inc pres x ep = Inr m"
  using convert_request[of L ep inc] merge_total[of _ _ x]
  by (auto simp: candidate_def)

lemma process_endpoint_cases:
  "process_endpoint L inc pres st ep =
     (case map_of (existing_lookup st) (endpoint_key L ep) of
        None \<Rightarrow> Inr (st\<lparr> existing_lookup :=
                     dict_set (endpoint_key L ep) (convert_endpoint_to_postman_item L ep inc)
                       (existing_lookup st),
                    new_endpoints := new_endpoints st @ [endpoint_label L ep] \<rparr>)
      | Some x \<Rightarrow>
          (case candidate L inc pres x ep of
             Inl err \<Rightarrow> Inl err
           | Inr m \<Rightarrow>
               if items_are_different x m
               then Inr (st\<lparr> existing_lookup := dict_set (endpoint_key L ep) m (existing_lookup st),
                             updated_endpoints := updated_endpoints st @ [endpoint_label L ep] \<rparr>)
               else Inr (st\<lparr> unchanged_endpoints :=
                               unchanged_endpoints st @ [endpoint_label L ep] \<rparr>)))"
  by (simp add: process_endpoint_def candidate_def Let_def split: option.splits)




lemma build_foldl: "build_existing_lookup L items = foldl (lookup_step L) [] items"
  by (simp add: build_existing_lookup_def lookup_step_def[abs_def])

lemma foldl_lookup_distinct:
  "distinct (map fst acc) \<Longrightarrow> distinct (map fst (foldl (lookup_step L) acc items))"
  by (induction items arbitrary: acc)
     (auto simp: lookup_step_def distinct_dict_set split: option.splits)

lemma build_distinct: "distinct (map fst (build_existing_lookup L items))"
  by (simp add: build_foldl foldl_lookup_distinct)




lemma normalize_plain:
  "extract_clean_path_from_string idle_lib ''/widgets'' = ''/widgets''"
  "extract_clean_path_from_string idle_lib ''/gadgets'' = ''/gadgets''"
  "extract_clean_path_from_string idle_lib ''/a/'' = ''/a/''"
  by (simp_all add: extract_clean_path_from_string_def startswith_def contains_def
      remove_format_extension_def format_extensions_def endswith_def)

lemma split_plain:
  "str_split ''/widgets'' ''/'' = [[], ''widgets'']"
  "str_split ''/gadgets'' ''/'' = [[], ''gadgets'']"
  "str_split ''/a/'' ''/'' = [[], ''a'', []]"
  by (simp_all add: str_split.simps startswith_def)


lemma bare_key:
  "endpoint_key idle_lib (bare_endpoint ''/widgets'') = ''GET:/widgets''"
  "endpoint_label idle_lib (bare_endpoint ''/widgets'') = ''GET /widgets''"
  "endpoint_key idle_lib (bare_endpoint ''/gadgets'') = ''GET:/gadgets''"
  "endpoint_label idle_lib (bare_endpoint ''/gadgets'') = ''GET /gadgets''"
  "endpoint_key idle_lib (bare_endpoint ''/a/'') = ''GET:/a/''"
  "endpoint_label idle_lib (bare_endpoint ''/a/'') = ''GET /a/''"
  by (simp_all add: endpoint_key_def endpoint_label_def bare_endpoint_def method_of_def
      normalize_plain)



text \<open>
  C2 (as amended). When the key of a descriptor matches a stored item, the stored item
  is replaced by the candidate item only if the change detector reports a change, and
  the descriptor is then reported as updated. When it reports no change the mapping is
  left as it is, the stored item stays, and the descriptor is reported as unchanged.
\<close>

theorem unchanged_keeps_stored_item:
  assumes "map_of (existing_lookup st) (endpoint_key L ep) = Some existing_item"
    and "candidate L inc pres existing_item ep = Inr merged_item"
  shows "(\<not> items_are_different existing_item merged_item \<longrightarrow>
            process_endpoint L inc pres st ep
            = Inr (st\<lparr> unchanged_endpoints := unchanged_endpoints st @ [endpoint_label L ep] \<rparr>))
       \<and> (items_are_different existing_item merged_item \<longrightarrow>
            process_endpoint L inc pres st ep
            = Inr (st\<lparr> existing_lookup :=
                          dict_set (endpoint_key L ep) merged_item (existing_lookup st),
                        updated_endpoints := updated_endpoints st @ [endpoint_label L ep] \<rparr>))"
  using assms by (simp add: process_endpoint_cases)

lemma convert_bare:
  "convert_endpoint_to_postman_item idle_lib (bare_endpoint ''/widgets'') True
   = \<lparr> i_name = Some ''GET /widgets'',
       i_request = Some \<lparr> rq_method = Some ''GET'', rq_header = [],
         rq_url = \<lparr> u_raw = Some ''/widgets'', u_path = Some [''widgets''], u_query = None \<rparr>,
         rq_description = Some (generate_request_documentation idle_lib (bare_endpoint ''/widgets'')),
         rq_body = None \<rparr>,
       i_other = [] \<rparr>"
  by (simp add: convert_endpoint_to_postman_item_def Let_def normalize_plain split_plain
      convert_url_def convert_headers_def convert_body_def params_at_def bare_endpoint_def
      method_of_def)

lemma doc_nonempty: "generate_request_documentation L ep \<noteq> []"
  by (simp add: generate_request_documentation_def request_start_marker_def)

lemma merge_same: "merge_request_descriptions x x = x"
  by (simp add: merge_request_descriptions_def)

lemma candidate_renamed:
  "candidate idle_lib True True renamed_item (bare_endpoint ''/widgets'')
   = Inr (convert_endpoint_to_postman_item idle_lib (bare_endpoint ''/widgets'') True)"
  by (simp add: candidate_def merge_postman_items_with_preservation_def Let_def convert_bare
      renamed_item_def stored_item_def item_description_def doc_nonempty merge_same)

lemma same_renamed:
  "\<not> items_are_different renamed_item
        (convert_endpoint_to_postman_item idle_lib (bare_endpoint ''/widgets'') True)"
  by (simp add: items_are_different_def compare_postman_items_def Let_def convert_bare
      renamed_item_def stored_item_def item_description_def request_of_def
      headers_different_def url_different_def url_query_def body_different_def body_falsy_def)

text \<open>
  The claim as stated fails: a stored item that was renamed by hand and carries the
  generated description compares as unchanged, and the output keeps it, not the
  regenerated item with the generated name.
\<close>

theorem unchanged_item_not_replaced:
  "candidate idle_lib True True renamed_item (bare_endpoint ''/widgets'')
   = Inr (convert_endpoint_to_postman_item idle_lib (bare_endpoint ''/widgets'') True)
   \<and> \<not> items_are_different renamed_item
        (convert_endpoint_to_postman_item idle_lib (bare_endpoint ''/widgets'') True)
   \<and> i_name (convert_endpoint_to_postman_item idle_lib (bare_endpoint ''/widgets'') True)
      = Some ''GET /widgets''
   \<and> i_name renamed_item = Some ''Renamed by hand''
   \<and> smart_update_postman_collection idle_lib [renamed_item] [bare_endpoint ''/widgets'']
        True True
      = Inr \<lparr> existing_lookup = [(''GET:/widgets'', renamed_item)],
              new_endpoints = [], updated_endpoints = [],
              unchanged_endpoints = [''GET /widgets''] \<rparr>"
proof -
  have b: "build_existing_lookup idle_lib [renamed_item] = [(''GET:/widgets'', renamed_item)]"
    by (simp add: build_existing_lookup_def renamed_item_def stored_item_def request_key_def
      extract_clean_path_from_postman_url_def remove_format_extension_def
      format_extensions_def endswith_def)
  have "smart_update_postman_collection idle_lib [renamed_item] [bare_endpoint ''/widgets'']
        True True
      = Inr \<lparr> existing_lookup = [(''GET:/widgets'', renamed_item)],
              new_endpoints = [], updated_endpoints = [],
              unchanged_endpoints = [''GET /widgets''] \<rparr>"
    by (simp add: smart_update_postman_collection_def b process_endpoint_cases bare_key
        candidate_renamed same_renamed)
  moreover have "i_name renamed_item = Some ''Renamed by hand''"
    by (simp add: renamed_item_def stored_item_def)
  ultimately show ?thesis
    using candidate_renamed same_renamed by (simp add: convert_bare)
qed

theorem unchanged_keeps_stored_item_witness:
  "map_of (existing_lookup
       \<lparr> existing_lookup = [(''GET:/widgets'', renamed_item)], new_endpoints = [],
         updated_endpoints = [], unchanged_endpoints = [] \<rparr>)
     (endpoint_key idle_lib (bare_endpoint ''/widgets'')) = Some renamed_item
   \<and> candidate idle_lib True True renamed_item (bare_endpoint ''/widgets'')
     = Inr (convert_endpoint_to_postman_item idle_lib (bare_endpoint ''/widgets'') True)
   \<and> \<not> items_are_different renamed_item
        (convert_endpoint_to_postman_item idle_lib (bare_endpoint ''/widgets'') True)
   \<and> process_endpoint idle_lib True True
        \<lparr> existing_lookup = [(''GET:/widgets'', renamed_item)], new_endpoints = [],
          updated_endpoints = [], unchanged_endpoints = [] \<rparr>
        (bare_endpoint ''/widgets'')
      = Inr \<lparr> existing_lookup = [(''GET:/widgets'', renamed_item)], new_endpoints = [],
              updated_endpoints = [], unchanged_endpoints = [''GET /widgets''] \<rparr>"
proof -
  let ?st = "\<lparr> existing_lookup = [(''GET:/widgets'', renamed_item)], new_endpoints = [],
         updated_endpoints = [], unchanged_endpoints = [] \<rparr>"
  have h1: "map_of (existing_lookup ?st) (endpoint_key idle_lib (bare_endpoint ''/widgets''))
            = Some renamed_item"
    by (simp add: bare_key)
  from unchanged_keeps_stored_item[OF h1 candidate_renamed] same_renamed
  have "process_endpoint idle_lib True True ?st (bare_endpoint ''/widgets'')
        = Inr (?st\<lparr> unchanged_endpoints :=
                 unchanged_endpoints ?st @ [endpoint_label idle_lib (bare_endpoint ''/widgets'')] \<rparr>)"
    by blast
  then show ?thesis using h1 candidate_renamed same_renamed by (simp add: bare_key)
qed


















section \<open>Properties of the key derivation\<close>

lemma item_key_decode:
  "item_key L it = map_option (\<lambda>(m, p). m @ '':'' @ p) (decode_key L it)"
  by (cases "i_request it")
     (simp_all add: item_key_def decode_key_def request_key_def request_method_def)

lemma str_find_app_char: "c \<notin> set a \<Longrightarrow> str_find (a @ c # r) [c] = Some (length a)"
  by (induction a) (auto simp: startswith_def)

lemma split_app_char: "c \<notin> set a \<Longrightarrow> str_split (a @ c # r) [c] = a # str_split r [c]"
  by (subst str_split.simps) (simp add: str_find_app_char)

lemma split_no_char: "c \<notin> set a \<Longrightarrow> str_split a [c] = [a]"
  by (subst str_split.simps) (simp add: str_find_char_None[THEN iffD2])

lemma split_join:
  "segs \<noteq> [] \<Longrightarrow> \<forall>s \<in> set segs. c \<notin> set s \<Longrightarrow> str_split (join [c] segs) [c] = segs"
proof (induction "[c]" segs rule: join.induct)
  case 1
  then show ?case by simp
next
  case (2 x)
  then show ?case by (simp add: split_no_char)
next
  case (3 x y ys)
  then show ?case by (simp add: split_app_char)
qed

lemma segments_of_canonical:
  assumes "\<forall>s \<in> set segs. s \<noteq> [] \<and> c \<notin> set s"
  shows "filter (\<lambda>p. p \<noteq> []) (str_split (c # join [c] segs) [c]) = segs"
proof (cases "segs = []")
  case True
  have "str_split [c] [c] = [[], []]"
    using split_app_char[of c "[]" "[]"] split_no_char[of c "[]"] by simp
  with True show ?thesis by simp
next
  case False
  have "str_split (c # join [c] segs) [c] = [] # str_split (join [c] segs) [c]"
    using split_app_char[of c "[]" "join [c] segs"] by simp
  also have "\<dots> = [] # segs"
    using False assms by (simp add: split_join)
  finally show ?thesis using assms by (simp add: filter_id_conv)
qed

lemma decode_encode:
  "decode_key L (convert_endpoint_to_postman_item L d inc)
   = Some (method_of d,
       remove_format_extension (''/'' @ join ''/''
         (filter (\<lambda>p. p \<noteq> []) (str_split (extract_clean_path_from_string L (e_path d)) ''/''))))"
  by (simp add: decode_key_def convert_endpoint_to_postman_item_def Let_def request_method_def
      convert_url_def extract_clean_path_from_postman_url_def)

text \<open>
  C4 (as amended). For every descriptor whose normalized path is a slash followed by
  segments that are not empty, joined by single slashes (so it starts with a slash and
  has neither an empty segment nor a trailing slash; the path \<^verbatim>\<open>/\<close> is included), and
  does not end in a format suffix, the key decoded from the encoded item is the method
  of the descriptor with its normalized path, and the item is stored under the key of
  the descriptor.
\<close>

theorem key_stable_on_canonical_paths:
  assumes "extract_clean_path_from_string L (e_path d) = ''/'' @ join ''/'' segs"
    and "\<forall>s \<in> set segs. s \<noteq> [] \<and> CHR ''/'' \<notin> set s"
    and "\<not> has_format_extension (extract_clean_path_from_string L (e_path d))"
  shows "decode_key L (convert_endpoint_to_postman_item L d inc)
         = Some (method_of d, extract_clean_path_from_string L (e_path d))
       \<and> item_key L (convert_endpoint_to_postman_item L d inc) = Some (endpoint_key L d)"
proof -
  let ?p = "extract_clean_path_from_string L (e_path d)"
  have "filter (\<lambda>p. p \<noteq> []) (str_split ?p ''/'') = segs"
    using segments_of_canonical[OF assms(2)] assms(1) by simp
  then have "decode_key L (convert_endpoint_to_postman_item L d inc)
             = Some (method_of d, remove_format_extension ?p)"
    using assms(1) by (simp add: decode_encode)
  moreover have "remove_format_extension ?p = ?p"
    using assms(3) by (simp add: remove_format_extension_fixed)
  ultimately show ?thesis
    by (simp add: item_key_decode endpoint_key_def)
qed

theorem key_stable_on_canonical_paths_witness:
  "extract_clean_path_from_string idle_lib (e_path (bare_endpoint ''/widgets.json''))
     = ''/'' @ join ''/'' [''widgets'']
   \<and> ''widgets'' \<noteq> [] \<and> CHR ''/'' \<notin> set ''widgets''
   \<and> \<not> has_format_extension
         (extract_clean_path_from_string idle_lib (e_path (bare_endpoint ''/widgets.json'')))
   \<and> decode_key idle_lib
        (convert_endpoint_to_postman_item idle_lib (bare_endpoint ''/widgets.json'') True)
      = Some (''GET'', ''/widgets'')"
proof -
  have n: "extract_clean_path_from_string idle_lib (e_path (bare_endpoint ''/widgets.json''))
           = ''/widgets''"
    by (simp add: bare_endpoint_def extract_clean_path_from_string_def startswith_def
        contains_def remove_format_extension_def format_extensions_def endswith_def)
  have h1: "extract_clean_path_from_string idle_lib (e_path (bare_endpoint ''/widgets.json''))
     = ''/'' @ join ''/'' [''widgets'']"
    by (simp add: n)
  have h2: "\<forall>s \<in> set [''widgets'']. s \<noteq> [] \<and> CHR ''/'' \<notin> set s"
    by simp
  have h3: "\<not> has_format_extension
         (extract_clean_path_from_string idle_lib (e_path (bare_endpoint ''/widgets.json'')))"
    by (simp add: n has_format_extension_def format_extensions_def endswith_def)
  from key_stable_on_canonical_paths[OF h1 h2 h3, of True] h1 h2 h3 show ?thesis
    by (simp add: n method_of_def bare_endpoint_def)
qed

lemma trailing_slash_key:
  "extract_clean_path_from_string idle_lib (e_path (bare_endpoint ''/a/'')) = ''/a/''
   \<and> method_of (bare_endpoint ''/a/'') = ''GET''
   \<and> decode_key idle_lib (convert_endpoint_to_postman_item idle_lib (bare_endpoint ''/a/'') True)
      = Some (''GET'', ''/a'')"
  by (simp add: decode_encode)
     (simp add: bare_endpoint_def normalize_plain split_plain method_of_def
       remove_format_extension_def format_extensions_def endswith_def)

lemma double_suffix_key:
  "extract_clean_path_from_string idle_lib (e_path (bare_endpoint ''/a.json.json'')) = ''/a.json''
   \<and> decode_key idle_lib
         (convert_endpoint_to_postman_item idle_lib (bare_endpoint ''/a.json.json'') True)
       = Some (''GET'', ''/a'')"
proof -
  have n: "extract_clean_path_from_string idle_lib ''/a.json.json'' = ''/a.json''"
    by (simp add: extract_clean_path_from_string_def startswith_def contains_def
        remove_format_extension_def format_extensions_def endswith_def)
  have s: "str_split ''/a.json'' ''/'' = [[], ''a.json'']"
    by (simp add: str_split.simps startswith_def)
  show ?thesis
    by (simp add: decode_encode)
       (simp add: bare_endpoint_def n s method_of_def remove_format_extension_def
          format_extensions_def endswith_def)
qed

text \<open>
  The claim as stated fails in two ways. A path with a trailing slash: the segment list
  of the encoded URL drops the empty segment, and the decoded path is \<^verbatim>\<open>/a\<close>, not
  \<^verbatim>\<open>/a/\<close>. A path with two format suffixes: the normalized path keeps one, and
  decoding strips it.
\<close>

theorem decoded_key_differs:
  "(extract_clean_path_from_string idle_lib (e_path (bare_endpoint ''/a/'')) = ''/a/''
    \<and> method_of (bare_endpoint ''/a/'') = ''GET''
    \<and> decode_key idle_lib (convert_endpoint_to_postman_item idle_lib (bare_endpoint ''/a/'') True)
       = Some (''GET'', ''/a''))
   \<and> (extract_clean_path_from_string idle_lib (e_path (bare_endpoint ''/a.json.json''))
         = ''/a.json''
      \<and> decode_key idle_lib
            (convert_endpoint_to_postman_item idle_lib (bare_endpoint ''/a.json.json'') True)
          = Some (''GET'', ''/a''))"
  by (rule conjI[OF trailing_slash_key double_suffix_key])

section \<open>The second run of the reconciler\<close>

lemma dict_set_fresh: "k \<notin> fst ` set l \<Longrightarrow> dict_set k v l = l @ [(k, v)]"
  by (induction l) auto

lemma dict_set_subset: "set (dict_set k v l) \<subseteq> insert (k, v) (set l)"
  by (induction l) (auto split: if_splits)

lemma well_keyed_dict_set:
  "well_keyed L l \<Longrightarrow> item_key L v = Some k \<Longrightarrow> well_keyed L (dict_set k v l)"
  using dict_set_subset[of k v l] by (auto simp: well_keyed_def list_all_iff)

lemma foldl_values:
  "distinct (map fst (acc @ lk)) \<Longrightarrow> well_keyed L lk \<Longrightarrow>
   foldl (lookup_step L) acc (map snd lk) = acc @ lk"
proof (induction lk arbitrary: acc)
  case Nil
  then show ?case by simp
next
  case (Cons kv lk)
  obtain k v where kv: "kv = (k, v)" by (cases kv)
  from Cons.prems(2) kv obtain rq where rq: "i_request v = Some rq" "request_key L rq = k"
    by (auto simp: well_keyed_def item_key_def)
  have "k \<notin> fst ` set acc" using Cons.prems(1) kv by auto
  then have step: "lookup_step L acc v = acc @ [(k, v)]"
    using rq by (simp add: lookup_step_def dict_set_fresh)
  have "distinct (map fst ((acc @ [(k, v)]) @ lk))" using Cons.prems(1) kv by simp
  moreover have "well_keyed L lk" using Cons.prems(2) by (simp add: well_keyed_def)
  ultimately have "foldl (lookup_step L) (acc @ [(k, v)]) (map snd lk) = (acc @ [(k, v)]) @ lk"
    by (rule Cons.IH)
  with step kv show ?case by simp
qed

lemma build_values:
  "distinct (map fst lk) \<Longrightarrow> well_keyed L lk \<Longrightarrow> build_existing_lookup L (map snd lk) = lk"
  using foldl_values[of "[]" lk L] by (simp add: build_foldl)

lemma foldl_well_keyed:
  "well_keyed L acc \<Longrightarrow> well_keyed L (foldl (lookup_step L) acc items)"
proof (induction items arbitrary: acc)
  case Nil
  then show ?case by simp
next
  case (Cons it items)
  have "well_keyed L (lookup_step L acc it)"
  proof (cases "i_request it")
    case None
    with Cons.prems show ?thesis by (simp add: lookup_step_def)
  next
    case (Some rq)
    then have "item_key L it = Some (request_key L rq)" by (simp add: item_key_def)
    with Cons.prems Some show ?thesis by (simp add: lookup_step_def well_keyed_dict_set)
  qed
  then show ?case using Cons.IH by simp
qed

lemma build_well_keyed: "well_keyed L (build_existing_lookup L items)"
proof -
  have "well_keyed L []" by (simp add: well_keyed_def)
  then show ?thesis by (simp add: build_foldl foldl_well_keyed)
qed

lemma headers_same: "\<not> headers_different hs hs"
  by (simp add: headers_different_def)

lemma url_same: "\<not> url_different u u"
  by (simp add: url_different_def)

lemma body_same: "\<not> body_different b b"
  by (simp add: body_different_def)

lemma different_by_description:
  assumes "rq_header (request_of a) = rq_header (request_of b)"
    and "rq_url (request_of a) = rq_url (request_of b)"
    and "rq_body (request_of a) = rq_body (request_of b)"
  shows "items_are_different a b \<longleftrightarrow> item_description a \<noteq> item_description b"
  using assms
  by (simp add: items_are_different_def compare_postman_items_def Let_def headers_same
      url_same body_same)

text \<open>What the candidate item shares with the fresh item.\<close>

lemma candidate_shape:
  assumes "candidate L inc True x d = Inr m"
  shows "item_description m
         = merge_request_descriptions (item_description x)
             (item_description (convert_endpoint_to_postman_item L d inc))"
    and "rq_header (request_of m) = rq_header (request_of (convert_endpoint_to_postman_item L d inc))"
    and "rq_url (request_of m) = rq_url (request_of (convert_endpoint_to_postman_item L d inc))"
    and "rq_body (request_of m) = rq_body (request_of (convert_endpoint_to_postman_item L d inc))"
    and "item_key L m = item_key L (convert_endpoint_to_postman_item L d inc)"
proof -
  let ?N = "convert_endpoint_to_postman_item L d inc"
  obtain rq where rq: "i_request ?N = Some rq" using convert_request by blast
  have "item_description m = merge_request_descriptions (item_description x) (item_description ?N)
    \<and> rq_header (request_of m) = rq_header (request_of ?N)
    \<and> rq_url (request_of m) = rq_url (request_of ?N)
    \<and> rq_body (request_of m) = rq_body (request_of ?N)
    \<and> item_key L m = item_key L ?N"
  proof (cases "item_description x \<noteq> [] \<or> item_description ?N \<noteq> []")
    case True
    with assms rq have "m = ?N\<lparr> i_request := Some (rq\<lparr> rq_description :=
        Some (merge_request_descriptions (item_description x) (item_description ?N)) \<rparr>) \<rparr>"
      by (auto simp: candidate_def merge_postman_items_with_preservation_def Let_def)
    then show ?thesis using rq
      by (simp add: item_description_def request_of_def item_key_def request_key_def)
  next
    case False
    with assms have "m = ?N"
      by (auto simp: candidate_def merge_postman_items_with_preservation_def Let_def)
    moreover have "merge_request_descriptions (item_description x) (item_description ?N) = []"
      using False by (simp add: merge_request_descriptions_def)
    ultimately show ?thesis using False by simp
  qed
  then show "item_description m
         = merge_request_descriptions (item_description x)
             (item_description (convert_endpoint_to_postman_item L d inc))"
    and "rq_header (request_of m) = rq_header (request_of (convert_endpoint_to_postman_item L d inc))"
    and "rq_url (request_of m) = rq_url (request_of (convert_endpoint_to_postman_item L d inc))"
    and "rq_body (request_of m) = rq_body (request_of (convert_endpoint_to_postman_item L d inc))"
    and "item_key L m = item_key L (convert_endpoint_to_postman_item L d inc)"
    by blast+
qed

lemma settled_by_description:
  assumes "rq_header (request_of v) = rq_header (request_of (convert_endpoint_to_postman_item L d inc))"
    and "rq_url (request_of v) = rq_url (request_of (convert_endpoint_to_postman_item L d inc))"
    and "rq_body (request_of v) = rq_body (request_of (convert_endpoint_to_postman_item L d inc))"
    and "merge_request_descriptions (item_description v)
           (item_description (convert_endpoint_to_postman_item L d inc)) = item_description v"
  shows "settled L inc d v"
proof -
  obtain m where m: "candidate L inc True v d = Inr m" using candidate_total by blast
  have "items_are_different v m \<longleftrightarrow> item_description v \<noteq> item_description m"
    using assms(1-3) candidate_shape(2-4)[OF m] by (simp add: different_by_description)
  then show ?thesis using m candidate_shape(1)[OF m] assms(4) by (simp add: settled_def)
qed

lemma settled_fresh: "settled L inc d (convert_endpoint_to_postman_item L d inc)"
  by (rule settled_by_description) (simp_all add: merge_same)

lemma settled_pass:
  assumes "map_of lk (endpoint_key L d) = Some v" and "settled L inc d v"
  shows "process_endpoint L inc True
           \<lparr> existing_lookup = lk, new_endpoints = [], updated_endpoints = [],
             unchanged_endpoints = [] \<rparr> d
         = Inr \<lparr> existing_lookup = lk, new_endpoints = [], updated_endpoints = [],
                 unchanged_endpoints = [endpoint_label L d] \<rparr>"
  using assms by (auto simp: process_endpoint_cases settled_def split: sum.splits)

lemma first_pass:
  assumes stable: "item_key L (convert_endpoint_to_postman_item L d inc) = Some (endpoint_key L d)"
    and fixed: "\<forall>x. map_of lk (endpoint_key L d) = Some x \<longrightarrow>
        merge_request_descriptions
          (merge_request_descriptions (item_description x)
             (item_description (convert_endpoint_to_postman_item L d inc)))
          (item_description (convert_endpoint_to_postman_item L d inc))
        = merge_request_descriptions (item_description x)
            (item_description (convert_endpoint_to_postman_item L d inc))"
    and wk: "well_keyed L lk" and dist: "distinct (map fst lk)"
  shows "\<exists>st1 v. process_endpoint L inc True
           \<lparr> existing_lookup = lk, new_endpoints = [], updated_endpoints = [],
             unchanged_endpoints = [] \<rparr> d = Inr st1
         \<and> well_keyed L (existing_lookup st1) \<and> distinct (map fst (existing_lookup st1))
         \<and> map_of (existing_lookup st1) (endpoint_key L d) = Some v \<and> settled L inc d v"
proof -
  let ?N = "convert_endpoint_to_postman_item L d inc"
  let ?k = "endpoint_key L d"
  let ?st0 = "\<lparr> existing_lookup = lk, new_endpoints = [], updated_endpoints = [],
             unchanged_endpoints = [] \<rparr>"
  show ?thesis
  proof (cases "map_of lk ?k")
    case None
    then have "process_endpoint L inc True ?st0 d
      = Inr (?st0\<lparr> existing_lookup := dict_set ?k ?N lk,
                   new_endpoints := [endpoint_label L d] \<rparr>)"
      by (simp add: process_endpoint_cases)
    moreover have "well_keyed L (dict_set ?k ?N lk)"
      using wk stable by (rule well_keyed_dict_set)
    moreover have "distinct (map fst (dict_set ?k ?N lk))"
      using dist by (rule distinct_dict_set)
    moreover have "map_of (dict_set ?k ?N lk) ?k = Some ?N"
      by (simp add: map_of_dict_set)
    ultimately show ?thesis using settled_fresh[of L inc d] by auto
  next
    case (Some x)
    obtain m where m: "candidate L inc True x d = Inr m" using candidate_total by blast
    show ?thesis
    proof (cases "items_are_different x m")
      case True
      with Some m have "process_endpoint L inc True ?st0 d
        = Inr (?st0\<lparr> existing_lookup := dict_set ?k m lk,
                     updated_endpoints := [endpoint_label L d] \<rparr>)"
        by (simp add: process_endpoint_cases)
      moreover have "well_keyed L (dict_set ?k m lk)"
        using wk stable candidate_shape(5)[OF m] by (simp add: well_keyed_dict_set)
      moreover have "distinct (map fst (dict_set ?k m lk))"
        using dist by (rule distinct_dict_set)
      moreover have "map_of (dict_set ?k m lk) ?k = Some m"
        by (simp add: map_of_dict_set)
      moreover have "settled L inc d m"
        using candidate_shape[OF m] fixed Some
        by (intro settled_by_description) simp_all
      ultimately show ?thesis by auto
    next
      case False
      with Some m have "process_endpoint L inc True ?st0 d
        = Inr (?st0\<lparr> unchanged_endpoints := [endpoint_label L d] \<rparr>)"
        by (simp add: process_endpoint_cases)
      moreover have "settled L inc d x"
        using m False by (simp add: settled_def)
      ultimately show ?thesis using wk dist Some by auto
    qed
  qed
qed

text \<open>
  C8 (as amended). Take a batch of one descriptor whose encoded item is stored under
  the key of the descriptor, and an existing collection in which the description stored
  under that key, if there is one, merges with the fresh description to a text that a
  further merge leaves as it is. With preservation on, the first run returns, and the
  second run against the items written by the first reports nothing new, nothing
  updated and the one descriptor as unchanged, and writes the same items again.
\<close>

theorem second_pass_fixed_point:
  assumes "item_key L (convert_endpoint_to_postman_item L d inc) = Some (endpoint_key L d)"
    and "\<forall>x. map_of (build_existing_lookup L existing) (endpoint_key L d) = Some x \<longrightarrow>
        merge_request_descriptions
          (merge_request_descriptions (item_description x)
             (item_description (convert_endpoint_to_postman_item L d inc)))
          (item_description (convert_endpoint_to_postman_item L d inc))
        = merge_request_descriptions (item_description x)
            (item_description (convert_endpoint_to_postman_item L d inc))"
  shows "\<exists>st1 st2.
           smart_update_postman_collection L existing [d] inc True = Inr st1
         \<and> smart_update_postman_collection L (collection_items st1) [d] inc True = Inr st2
         \<and> new_endpoints st2 = [] \<and> updated_endpoints st2 = []
         \<and> unchanged_endpoints st2 = [endpoint_label L d]
         \<and> collection_items st2 = collection_items st1"
proof -
  obtain st1 v where st1: "process_endpoint L inc True
           \<lparr> existing_lookup = build_existing_lookup L existing, new_endpoints = [],
             updated_endpoints = [], unchanged_endpoints = [] \<rparr> d = Inr st1"
    and wk: "well_keyed L (existing_lookup st1)"
    and dist: "distinct (map fst (existing_lookup st1))"
    and v: "map_of (existing_lookup st1) (endpoint_key L d) = Some v" "settled L inc d v"
    using first_pass[OF assms build_well_keyed build_distinct] by blast
  have run1: "smart_update_postman_collection L existing [d] inc True = Inr st1"
    using st1 by (simp add: smart_update_postman_collection_def)
  have again: "build_existing_lookup L (collection_items st1) = existing_lookup st1"
    using dist wk by (simp add: collection_items_def build_values)
  have run2: "smart_update_postman_collection L (collection_items st1) [d] inc True
        = Inr \<lparr> existing_lookup = existing_lookup st1, new_endpoints = [],
                updated_endpoints = [], unchanged_endpoints = [endpoint_label L d] \<rparr>"
    using settled_pass[OF v] by (simp add: smart_update_postman_collection_def again)
  show ?thesis using run1 run2 by (simp add: collection_items_def)
qed

lemma doc_bare:
  "generate_request_documentation idle_lib (bare_endpoint ''/widgets'')
   = request_start_marker @ ''\<newline># GET /widgets\<newline>\<newline>'' @ request_end_marker"
  "generate_request_documentation idle_lib (bare_endpoint ''/a/'')
   = request_start_marker @ ''\<newline># GET /a/\<newline>\<newline>'' @ request_end_marker"
  by (simp_all add: generate_request_documentation_def bare_endpoint_def method_of_def
      normalize_plain)

lemma strip_rule: "strip ''Do not touch.\<newline>\<newline>---\<newline>\<newline>'' = ''Do not touch.\<newline>\<newline>---''"
  by (simp add: strip_def lstrip_def rstrip_def strip_prefixes.simps whitespace_def startswith_def)

lemma merge_rule_again:
  "merge_request_descriptions
     (''Do not touch.\<newline>\<newline>---\<newline>\<newline>''
        @ generate_request_documentation idle_lib (bare_endpoint ''/widgets''))
     (generate_request_documentation idle_lib (bare_endpoint ''/widgets''))
   = ''Do not touch.\<newline>\<newline>---\<newline>\<newline>''
       @ generate_request_documentation idle_lib (bare_endpoint ''/widgets'')"
  apply (simp only: doc_bare)
  apply (simp add: merge_request_descriptions_def Let_def str_split1_def
        str_split.simps first_part_def request_start_marker_def request_end_marker_def
        contains_def startswith_def strip_empty strip_rule)
  done

lemma merge_manual_twice:
  "merge_request_descriptions
     (merge_request_descriptions ''Do not touch.''
        (generate_request_documentation idle_lib (bare_endpoint ''/widgets'')))
     (generate_request_documentation idle_lib (bare_endpoint ''/widgets''))
   = merge_request_descriptions ''Do not touch.''
        (generate_request_documentation idle_lib (bare_endpoint ''/widgets''))"
proof -
  let ?G = "generate_request_documentation idle_lib (bare_endpoint ''/widgets'')"
  have g: "?G \<noteq> []" by (rule doc_nonempty)
  have ne: "''Do not touch.'' \<noteq> ?G"
    by (simp add: doc_bare request_start_marker_def)
  have first: "merge_request_descriptions ''Do not touch.'' ?G
               = ''Do not touch.'' @ ''\<newline>\<newline>---\<newline>\<newline>'' @ ?G"
    using g ne dnt by (intro unmarked_request) simp_all
  show ?thesis
    unfolding first using merge_rule_again by simp
qed

theorem second_pass_fixed_point_witness:
  "item_key idle_lib (convert_endpoint_to_postman_item idle_lib (bare_endpoint ''/widgets'') True)
     = Some (endpoint_key idle_lib (bare_endpoint ''/widgets''))
   \<and> map_of (build_existing_lookup idle_lib
               [stored_item ''Widgets'' [''widgets''] (Some ''Do not touch.'')])
         (endpoint_key idle_lib (bare_endpoint ''/widgets''))
       = Some (stored_item ''Widgets'' [''widgets''] (Some ''Do not touch.''))
   \<and> merge_request_descriptions
        (merge_request_descriptions
           (item_description (stored_item ''Widgets'' [''widgets''] (Some ''Do not touch.'')))
           (item_description
              (convert_endpoint_to_postman_item idle_lib (bare_endpoint ''/widgets'') True)))
        (item_description
           (convert_endpoint_to_postman_item idle_lib (bare_endpoint ''/widgets'') True))
      = merge_request_descriptions
          (item_description (stored_item ''Widgets'' [''widgets''] (Some ''Do not touch.'')))
          (item_description
             (convert_endpoint_to_postman_item idle_lib (bare_endpoint ''/widgets'') True))
   \<and> (\<exists>st1 st2.
         smart_update_postman_collection idle_lib
           [stored_item ''Widgets'' [''widgets''] (Some ''Do not touch.'')]
           [bare_endpoint ''/widgets''] True True = Inr st1
       \<and> smart_update_postman_collection idle_lib (collection_items st1)
           [bare_endpoint ''/widgets''] True True = Inr st2
       \<and> new_endpoints st2 = [] \<and> updated_endpoints st2 = []
       \<and> unchanged_endpoints st2 = [''GET /widgets''])"
proof -
  let ?X = "stored_item ''Widgets'' [''widgets''] (Some ''Do not touch.'')"
  let ?d = "bare_endpoint ''/widgets''"
  let ?N = "convert_endpoint_to_postman_item idle_lib ?d True"
  have h1: "item_key idle_lib ?N = Some (endpoint_key idle_lib ?d)"
    by (simp add: convert_bare bare_key item_key_def request_key_def
        extract_clean_path_from_postman_url_def remove_format_extension_def
        format_extensions_def endswith_def)
  have b: "build_existing_lookup idle_lib [?X] = [(''GET:/widgets'', ?X)]"
    by (simp add: build_existing_lookup_def stored_item_def request_key_def
        extract_clean_path_from_postman_url_def remove_format_extension_def
        format_extensions_def endswith_def)
  have dx: "item_description ?X = ''Do not touch.''"
    by (simp add: stored_item_def item_description_def)
  have dn: "item_description ?N = generate_request_documentation idle_lib ?d"
    by (simp add: convert_bare item_description_def)
  have fx: "merge_request_descriptions
        (merge_request_descriptions (item_description ?X) (item_description ?N))
        (item_description ?N)
      = merge_request_descriptions (item_description ?X) (item_description ?N)"
    by (simp add: dx dn merge_manual_twice)
  have h2: "\<forall>x. map_of (build_existing_lookup idle_lib [?X]) (endpoint_key idle_lib ?d) = Some x
        \<longrightarrow> merge_request_descriptions
          (merge_request_descriptions (item_description x) (item_description ?N))
          (item_description ?N)
        = merge_request_descriptions (item_description x) (item_description ?N)"
    using fx by (simp add: b bare_key)
  have m: "map_of (build_existing_lookup idle_lib [?X]) (endpoint_key idle_lib ?d) = Some ?X"
    by (simp add: b bare_key)
  from second_pass_fixed_point[OF h1 h2]
  have "\<exists>st1 st2.
         smart_update_postman_collection idle_lib [?X] [?d] True True = Inr st1
       \<and> smart_update_postman_collection idle_lib (collection_items st1) [?d] True True = Inr st2
       \<and> new_endpoints st2 = [] \<and> updated_endpoints st2 = []
       \<and> unchanged_endpoints st2 = [''GET /widgets'']"
    unfolding bare_key by blast
  with h1 m fx show ?thesis by blast
qed

lemma convert_slash:
  "convert_endpoint_to_postman_item idle_lib (bare_endpoint ''/a/'') True
   = \<lparr> i_name = Some ''GET /a/'',
       i_request = Some \<lparr> rq_method = Some ''GET'', rq_header = [],
         rq_url = \<lparr> u_raw = Some ''/a/'', u_path = Some [''a''], u_query = None \<rparr>,
         rq_description = Some (generate_request_documentation idle_lib (bare_endpoint ''/a/'')),
         rq_body = None \<rparr>,
       i_other = [] \<rparr>"
  by (simp add: convert_endpoint_to_postman_item_def Let_def normalize_plain split_plain
      convert_url_def convert_headers_def convert_body_def params_at_def bare_endpoint_def
      method_of_def)

lemma trailing_slash_new_again:
  "smart_update_postman_collection idle_lib [] [bare_endpoint ''/a/''] True True
   = Inr \<lparr> existing_lookup =
             [(''GET:/a/'', convert_endpoint_to_postman_item idle_lib (bare_endpoint ''/a/'') True)],
           new_endpoints = [''GET /a/''], updated_endpoints = [], unchanged_endpoints = [] \<rparr>
   \<and> collection_items
        \<lparr> existing_lookup =
            [(''GET:/a/'', convert_endpoint_to_postman_item idle_lib (bare_endpoint ''/a/'') True)],
          new_endpoints = [''GET /a/''], updated_endpoints = [], unchanged_endpoints = [] \<rparr>
      = [convert_endpoint_to_postman_item idle_lib (bare_endpoint ''/a/'') True]
   \<and> smart_update_postman_collection idle_lib
        [convert_endpoint_to_postman_item idle_lib (bare_endpoint ''/a/'') True]
        [bare_endpoint ''/a/''] True True
      = Inr \<lparr> existing_lookup =
             [(''GET:/a'', convert_endpoint_to_postman_item idle_lib (bare_endpoint ''/a/'') True),
              (''GET:/a/'', convert_endpoint_to_postman_item idle_lib (bare_endpoint ''/a/'') True)],
           new_endpoints = [''GET /a/''], updated_endpoints = [], unchanged_endpoints = [] \<rparr>"
proof -
  let ?N = "convert_endpoint_to_postman_item idle_lib (bare_endpoint ''/a/'') True"
  have b: "build_existing_lookup idle_lib [?N] = [(''GET:/a'', ?N)]"
    by (simp add: convert_slash build_existing_lookup_def request_key_def
        extract_clean_path_from_postman_url_def remove_format_extension_def
        format_extensions_def endswith_def)
  have b0: "build_existing_lookup idle_lib [] = []"
    by (simp add: build_existing_lookup_def)
  show ?thesis
    by (simp add: smart_update_postman_collection_def b b0 process_endpoint_cases bare_key
        collection_items_def)
qed

lemma convert_described:
  "convert_endpoint_to_postman_item idle_lib described_endpoint False
   = described_item ''Lists widgets.''"
  by (simp add: convert_endpoint_to_postman_item_def Let_def normalize_plain split_plain
      convert_url_def convert_headers_def convert_body_def params_at_def bare_endpoint_def
      method_of_def described_endpoint_def described_item_def)

lemma described_key:
  "endpoint_key idle_lib described_endpoint = ''GET:/widgets''"
  "endpoint_label idle_lib described_endpoint = ''GET /widgets''"
  by (simp_all add: endpoint_key_def endpoint_label_def bare_endpoint_def method_of_def
      normalize_plain described_endpoint_def)

lemma build_described:
  "build_existing_lookup idle_lib [described_item desc] = [(''GET:/widgets'', described_item desc)]"
  by (simp add: build_existing_lookup_def described_item_def request_key_def
      extract_clean_path_from_postman_url_def remove_format_extension_def
      format_extensions_def endswith_def)

lemma build_stored:
  "build_existing_lookup idle_lib [stored_item name [''widgets''] desc]
   = [(''GET:/widgets'', stored_item name [''widgets''] desc)]"
  by (simp add: build_existing_lookup_def stored_item_def request_key_def
      extract_clean_path_from_postman_url_def remove_format_extension_def
      format_extensions_def endswith_def)

lemma merge_plain_once:
  "merge_request_descriptions ''Do not touch.'' ''Lists widgets.''
   = ''Do not touch.\<newline>\<newline>---\<newline>\<newline>Lists widgets.''"
  using unmarked_request[of "''Do not touch.''" "''Lists widgets.''"] dnt by simp

lemma merge_plain_twice:
  "merge_request_descriptions ''Do not touch.\<newline>\<newline>---\<newline>\<newline>Lists widgets.''
     ''Lists widgets.''
   = ''Do not touch.\<newline>\<newline>---\<newline>\<newline>Lists widgets.\<newline>\<newline>---\<newline>\<newline>Lists widgets.''"
proof -
  have "\<not> contains ''Do not touch.\<newline>\<newline>---\<newline>\<newline>Lists widgets.'' request_start_marker"
    by (simp add: contains_def startswith_def request_start_marker_def)
  moreover have "\<not> legacy_request_text ''Do not touch.\<newline>\<newline>---\<newline>\<newline>Lists widgets.''"
    by (simp add: legacy_request_text_def contains_def startswith_def)
  ultimately show ?thesis
    using unmarked_request[of "''Do not touch.\<newline>\<newline>---\<newline>\<newline>Lists widgets.''"
        "''Lists widgets.''"]
    by simp
qed

lemma candidate_described:
  "candidate idle_lib False True (stored_item ''Widgets'' [''widgets''] (Some ''Do not touch.''))
     described_endpoint
   = Inr (described_item ''Do not touch.\<newline>\<newline>---\<newline>\<newline>Lists widgets.'')"
  "candidate idle_lib False True
     (described_item ''Do not touch.\<newline>\<newline>---\<newline>\<newline>Lists widgets.'')
     described_endpoint
   = Inr (described_item
       ''Do not touch.\<newline>\<newline>---\<newline>\<newline>Lists widgets.\<newline>\<newline>---\<newline>\<newline>Lists widgets.'')"
  by (simp_all add: candidate_def convert_described merge_postman_items_with_preservation_def
      Let_def item_description_def stored_item_def described_item_def merge_plain_once
      merge_plain_twice)

lemma described_differs:
  "items_are_different (stored_item ''Widgets'' [''widgets''] (Some ''Do not touch.''))
     (described_item ''Do not touch.\<newline>\<newline>---\<newline>\<newline>Lists widgets.'')"
  "items_are_different
     (described_item ''Do not touch.\<newline>\<newline>---\<newline>\<newline>Lists widgets.'')
     (described_item
       ''Do not touch.\<newline>\<newline>---\<newline>\<newline>Lists widgets.\<newline>\<newline>---\<newline>\<newline>Lists widgets.'')"
  by (simp_all add: items_are_different_def compare_postman_items_def Let_def
      item_description_def stored_item_def described_item_def)

lemma appended_on_every_run:
  "smart_update_postman_collection idle_lib
     [stored_item ''Widgets'' [''widgets''] (Some ''Do not touch.'')]
     [described_endpoint] False True
   = Inr \<lparr> existing_lookup =
             [(''GET:/widgets'',
               described_item ''Do not touch.\<newline>\<newline>---\<newline>\<newline>Lists widgets.'')],
           new_endpoints = [], updated_endpoints = [''GET /widgets''],
           unchanged_endpoints = [] \<rparr>"
  "smart_update_postman_collection idle_lib
     [described_item ''Do not touch.\<newline>\<newline>---\<newline>\<newline>Lists widgets.'']
     [described_endpoint] False True
   = Inr \<lparr> existing_lookup =
             [(''GET:/widgets'',
               described_item
                 ''Do not touch.\<newline>\<newline>---\<newline>\<newline>Lists widgets.\<newline>\<newline>---\<newline>\<newline>Lists widgets.'')],
           new_endpoints = [], updated_endpoints = [''GET /widgets''],
           unchanged_endpoints = [] \<rparr>"
  by (simp_all add: smart_update_postman_collection_def build_stored build_described
      process_endpoint_cases described_key candidate_described described_differs)

text \<open>
  The claim as stated fails in two ways. For a descriptor with a trailing slash in its
  path, on an empty collection, the first run adds the item and the second run, which
  finds it under the key without the slash, reports the descriptor as new again. For a
  stored description written by hand and a run without generated documentation, the
  first run appends the description of the descriptor and reports an update, and the
  second run appends it again and reports an update again.
\<close>

theorem second_run_not_fixed:
  "(smart_update_postman_collection idle_lib [] [bare_endpoint ''/a/''] True True
    = Inr \<lparr> existing_lookup =
              [(''GET:/a/'', convert_endpoint_to_postman_item idle_lib (bare_endpoint ''/a/'') True)],
            new_endpoints = [''GET /a/''], updated_endpoints = [], unchanged_endpoints = [] \<rparr>
    \<and> collection_items
         \<lparr> existing_lookup =
             [(''GET:/a/'', convert_endpoint_to_postman_item idle_lib (bare_endpoint ''/a/'') True)],
           new_endpoints = [''GET /a/''], updated_endpoints = [], unchanged_endpoints = [] \<rparr>
       = [convert_endpoint_to_postman_item idle_lib (bare_endpoint ''/a/'') True]
    \<and> smart_update_postman_collection idle_lib
         [convert_endpoint_to_postman_item idle_lib (bare_endpoint ''/a/'') True]
         [bare_endpoint ''/a/''] True True
       = Inr \<lparr> existing_lookup =
              [(''GET:/a'', convert_endpoint_to_postman_item idle_lib (bare_endpoint ''/a/'') True),
               (''GET:/a/'', convert_endpoint_to_postman_item idle_lib (bare_endpoint ''/a/'') True)],
            new_endpoints = [''GET /a/''], updated_endpoints = [], unchanged_endpoints = [] \<rparr>)
   \<and> smart_update_postman_collection idle_lib
       [stored_item ''Widgets'' [''widgets''] (Some ''Do not touch.'')]
       [described_endpoint] False True
     = Inr \<lparr> existing_lookup =
               [(''GET:/widgets'',
                 described_item ''Do not touch.\<newline>\<newline>---\<newline>\<newline>Lists widgets.'')],
             new_endpoints = [], updated_endpoints = [''GET /widgets''],
             unchanged_endpoints = [] \<rparr>
   \<and> smart_update_postman_collection idle_lib
       [described_item ''Do not touch.\<newline>\<newline>---\<newline>\<newline>Lists widgets.'']
       [described_endpoint] False True
     = Inr \<lparr> existing_lookup =
               [(''GET:/widgets'',
                 described_item
                   ''Do not touch.\<newline>\<newline>---\<newline>\<newline>Lists widgets.\<newline>\<newline>---\<newline>\<newline>Lists widgets.'')],
             new_endpoints = [], updated_endpoints = [''GET /widgets''],
             unchanged_endpoints = [] \<rparr>"
  by (rule conjI[OF trailing_slash_new_again
        conjI[OF appended_on_every_run(1) appended_on_every_run(2)]])

section \<open>Properties of the document renderer\<close>










lemma api_str_other:
  "json_loads L s = LoadedOther v \<Longrightarrow>
   generate_api_documentation L (ApiStr s) format_type template_style
   = render_other L v format_type"
  by (simp only: generate_api_documentation_def api_data.case loaded.case)







text \<open>
  A string that parses to a value that is not a dictionary gives, with the format
  \<^verbatim>\<open>markdown\<close>, the error text of the handler.
\<close>

lemma parsed_list_is_reported:
  "json_loads L s = LoadedOther (JArr []) \<Longrightarrow>
   generate_api_documentation L (ApiStr s) ''markdown'' template_style
   = ''Error generating documentation: '' @ [CHR 0x27] @ ''list'' @ [CHR 0x27]
     @ '' object has no attribute '' @ [CHR 0x27] @ ''get'' @ [CHR 0x27]"
  by (simp add: api_str_other render_other_def attribute_error_def)

end
